theory Spec2Isabelle
  imports Main "HOL-Library.Sublist"
begin

section \<open>JavaScript primitives used by the sources\<close>

text \<open>
  Strings are \<open>string\<close>; a \<open>char\<close> stands for a UTF-16 code unit below 256, so the
  white space of \<open>String.prototype.trim\<close> is TAB, LF, VT, FF, CR, SPACE and NBSP.
  A value of type \<open>string | null | undefined\<close> is a \<open>string option\<close>.
  JavaScript numbers that hold integers are \<open>int\<close> (exact below \<open>2^53\<close>).
\<close>

definition is_js_ws :: "char \<Rightarrow> bool" where
  "is_js_ws c \<longleftrightarrow>
     c \<in> set [CHR 0x09, CHR 0x0A, CHR 0x0B, CHR 0x0C, CHR 0x0D, CHR 0x20, CHR 0xA0]"

definition js_trim :: "string \<Rightarrow> string" where
  "js_trim s = rev (dropWhile is_js_ws (rev (dropWhile is_js_ws s)))"

text \<open>Truthiness of an optional string: \<open>null\<close>, \<open>undefined\<close> and \<open>""\<close> are falsy.\<close>

definition js_truthy :: "string option \<Rightarrow> bool" where
  "js_truthy v = (case v of None \<Rightarrow> False | Some s \<Rightarrow> s \<noteq> [])"

text \<open>\<open>s.includes(sub)\<close>.\<close>

fun js_includes :: "string \<Rightarrow> string \<Rightarrow> bool" where
  "js_includes [] sub = (sub = [])"
| "js_includes (c # cs) sub = (prefix sub (c # cs) \<or> js_includes cs sub)"

text \<open>\<open>s.slice(b, e)\<close> for non-negative \<open>b\<close> and \<open>e\<close>.\<close>

definition js_slice :: "nat \<Rightarrow> nat \<Rightarrow> string \<Rightarrow> string" where
  "js_slice b e s = take (e - b) (drop b s)"

text \<open>\<open>xs.slice(-n)\<close>: the last \<open>n\<close> elements, all of them when there are fewer.\<close>

definition js_slice_last :: "nat \<Rightarrow> 'a list \<Rightarrow> 'a list" where
  "js_slice_last n xs = drop (length xs - n) xs"

definition digit_char :: "nat \<Rightarrow> char" where
  "digit_char d = ''0123456789abcdefghijklmnopqrstuvwxyz'' ! d"

text \<open>\<open>n.toString(radix)\<close> for a non-negative integer and a radix between 2 and 36.\<close>

function js_toString_radix :: "nat \<Rightarrow> nat \<Rightarrow> string" where
  "js_toString_radix radix n =
     (if n < radix \<or> radix < 2 then [digit_char n]
      else js_toString_radix radix (n div radix) @ [digit_char (n mod radix)])"
  by pat_completeness auto
termination
  by (relation "measure (\<lambda>(radix, n). n)") auto

declare js_toString_radix.simps [simp del]

text \<open>Template interpolation \<open>${n}\<close> of an integer-valued number.\<close>

definition js_show_int :: "int \<Rightarrow> string" where
  "js_show_int i =
     (if i < 0 then CHR ''-'' # js_toString_radix 10 (nat (- i))
      else js_toString_radix 10 (nat i))"

section \<open>startDevAndMaintenanceScript.ts: launching the orchestrator\<close>

definition WORKSPACE_ROOT :: string where
  "WORKSPACE_ROOT = ''/root/workspace''"

definition CMUX_RUNTIME_DIR :: string where
  "CMUX_RUNTIME_DIR = ''/var/tmp/cmux-scripts''"

definition MAINTENANCE_WINDOW_NAME :: string where
  "MAINTENANCE_WINDOW_NAME = ''maintenance''"

definition MAINTENANCE_SCRIPT_FILENAME :: string where
  "MAINTENANCE_SCRIPT_FILENAME = ''maintenance.sh''"

definition DEV_WINDOW_NAME :: string where
  "DEV_WINDOW_NAME = ''dev''"

definition DEV_SCRIPT_FILENAME :: string where
  "DEV_SCRIPT_FILENAME = ''dev.sh''"

record script_ident =
  windowName :: string
  scriptPath :: string

record ScriptIdentifiers =
  maintenance :: script_ident
  dev :: script_ident

record OrchestratorScriptConfig =
  workspaceRoot :: string
  runtimeDir :: string
  maintenanceScriptPath :: string
  devScriptPath :: string
  maintenanceWindowName :: string
  devWindowName :: string
  maintenanceExitCodePath :: string
  maintenanceErrorLogPath :: string
  devExitCodePath :: string
  devErrorLogPath :: string
  hasMaintenanceScript :: bool
  hasDevScript :: bool
  convexUrl :: string
  taskRunJwt :: string

definition allocateScriptIdentifiers :: ScriptIdentifiers where
  "allocateScriptIdentifiers =
     \<lparr> maintenance =
         \<lparr> windowName = MAINTENANCE_WINDOW_NAME,
           scriptPath = CMUX_RUNTIME_DIR @ ''/'' @ MAINTENANCE_SCRIPT_FILENAME \<rparr>,
       dev =
         \<lparr> windowName = DEV_WINDOW_NAME,
           scriptPath = CMUX_RUNTIME_DIR @ ''/'' @ DEV_SCRIPT_FILENAME \<rparr> \<rparr>"

text \<open>
  The run identifier
  \<^verbatim>\<open>`${Date.now().toString(36)}_${Math.random().toString(36).slice(2, 10)}`\<close>.
  The clock reading \<open>now\<close> and the text \<open>rnd\<close> of \<^verbatim>\<open>Math.random().toString(36)\<close>
  are inputs.
\<close>

definition mkRunId :: "nat \<Rightarrow> string \<Rightarrow> string" where
  "mkRunId now rnd = js_toString_radix 36 now @ ''_'' @ js_slice 2 10 rnd"

definition orchestratorScriptPath :: "string \<Rightarrow> string" where
  "orchestratorScriptPath runId = CMUX_RUNTIME_DIR @ ''/orchestrator_'' @ runId @ ''.ts''"

definition mkMaintenanceExitCodePath :: "string \<Rightarrow> string" where
  "mkMaintenanceExitCodePath runId = CMUX_RUNTIME_DIR @ ''/maintenance_'' @ runId @ ''.exit-code''"

definition mkMaintenanceErrorLogPath :: "string \<Rightarrow> string" where
  "mkMaintenanceErrorLogPath runId = CMUX_RUNTIME_DIR @ ''/maintenance_'' @ runId @ ''.log''"

definition mkDevExitCodePath :: "string \<Rightarrow> string" where
  "mkDevExitCodePath runId = CMUX_RUNTIME_DIR @ ''/dev_'' @ runId @ ''.exit-code''"

definition mkDevErrorLogPath :: "string \<Rightarrow> string" where
  "mkDevErrorLogPath runId = CMUX_RUNTIME_DIR @ ''/dev_'' @ runId @ ''.log''"

definition orchestratorLogPath :: "string \<Rightarrow> string" where
  "orchestratorLogPath runId = CMUX_RUNTIME_DIR @ ''/orchestrator_'' @ runId @ ''.log''"

text \<open>
  The wrapped script files. The banner lines are kept; \<open>maintenanceScript\<close> and
  \<open>devScript\<close> are spliced in as the template does.
\<close>

definition maintenanceScriptContent :: "string \<Rightarrow> string" where
  \<open>maintenanceScriptContent script =
     ''#!/bin/zsh\<newline>set -eux\<newline>cd '' @ WORKSPACE_ROOT @
     ''\<newline>\<newline>echo "=== Maintenance Script Started at '' @ [CHR 0x5C] @ ''$(date) ==="\<newline>'' @ script @
     ''\<newline>echo "=== Maintenance Script Completed at '' @ [CHR 0x5C] @ ''$(date) ==="\<newline>''\<close>

definition devScriptContent :: "string \<Rightarrow> string" where
  \<open>devScriptContent script =
     ''#!/bin/zsh\<newline>set -ux\<newline>cd '' @ WORKSPACE_ROOT @
     ''\<newline>\<newline>echo "=== Dev Script Started at '' @ [CHR 0x5C] @ ''$(date) ==="\<newline>'' @ script @ ''\<newline>''\<close>

text \<open>
  The remote command \<open>setupAndRunCommand\<close> is a shell text; it is kept as the list of
  its steps. The body of the orchestrator file is the program generated from the
  configuration by \<open>buildOrchestratorScript\<close>.
\<close>

datatype file_body = ScriptText string | OrchestratorSource OrchestratorScriptConfig

datatype remote_step =
    SetEU
  | MkdirP string
  | CatHeredoc string file_body
  | ChmodX string
  | RmF string
  | NohupBun string string
  | SleepSeconds nat
  | VerifyRunning

record exec_result =
  exit_code :: int
  stdout :: "string option"
  stderr :: "string option"

text \<open>
  The request handed to \<open>fetch\<close>. The body is the object given to
  \<open>JSON.stringify\<close>, as its list of fields.
\<close>

record http_request =
  url :: string
  http_method :: string
  headers :: "(string \<times> string) list"
  body :: "(string \<times> string) list"

text \<open>
  What a run does to the outside, in order: console lines, the remote call of the
  launcher, and for the orchestrator its tmux commands, file removals, sleeps (in
  milliseconds), file queries and HTTP calls.
\<close>

datatype event =
    ConsoleLog string
  | ConsoleError string
  | InstanceExec "remote_step list"
  | Tmux "string list"
  | RmForce string
  | Sleep nat
  | FileExists string
  | FileText string
  | Fetch http_request

record run_args =
  maintenanceScript :: "string option"
  devScript :: "string option"
  identifiers :: "ScriptIdentifiers option"
  argConvexUrl :: "string option"
  argTaskRunJwt :: "string option"

definition hasScript :: "string option \<Rightarrow> bool" where
  "hasScript s = (case s of None \<Rightarrow> False | Some t \<Rightarrow> t \<noteq> [] \<and> length (js_trim t) > 0)"

definition orchestratorConfig :: "run_args \<Rightarrow> string \<Rightarrow> OrchestratorScriptConfig" where
  "orchestratorConfig args runId =
     (let ids = (case identifiers args of None \<Rightarrow> allocateScriptIdentifiers | Some i \<Rightarrow> i) in
      \<lparr> workspaceRoot = WORKSPACE_ROOT,
        runtimeDir = CMUX_RUNTIME_DIR,
        maintenanceScriptPath = scriptPath (maintenance ids),
        devScriptPath = scriptPath (dev ids),
        maintenanceWindowName = windowName (maintenance ids),
        devWindowName = windowName (dev ids),
        maintenanceExitCodePath = mkMaintenanceExitCodePath runId,
        maintenanceErrorLogPath = mkMaintenanceErrorLogPath runId,
        devExitCodePath = mkDevExitCodePath runId,
        devErrorLogPath = mkDevErrorLogPath runId,
        hasMaintenanceScript = hasScript (maintenanceScript args),
        hasDevScript = hasScript (devScript args),
        convexUrl = (case argConvexUrl args of None \<Rightarrow> [] | Some u \<Rightarrow> u),
        taskRunJwt = (case argTaskRunJwt args of None \<Rightarrow> [] | Some t \<Rightarrow> t) \<rparr>)"

definition setupAndRunCommand :: "run_args \<Rightarrow> string \<Rightarrow> remote_step list" where
  "setupAndRunCommand args runId =
     (let ids = (case identifiers args of None \<Rightarrow> allocateScriptIdentifiers | Some i \<Rightarrow> i) in
      [SetEU, MkdirP CMUX_RUNTIME_DIR]
      @ (if hasScript (maintenanceScript args)
         then [CatHeredoc (scriptPath (maintenance ids))
                 (ScriptText (maintenanceScriptContent (the (maintenanceScript args)))),
               ChmodX (scriptPath (maintenance ids)),
               RmF (mkMaintenanceExitCodePath runId)]
         else [])
      @ (if hasScript (devScript args)
         then [CatHeredoc (scriptPath (dev ids))
                 (ScriptText (devScriptContent (the (devScript args)))),
               ChmodX (scriptPath (dev ids))]
         else [])
      @ [CatHeredoc (orchestratorScriptPath runId)
           (OrchestratorSource (orchestratorConfig args runId)),
         ChmodX (orchestratorScriptPath runId),
         NohupBun (orchestratorScriptPath runId) (orchestratorLogPath runId),
         SleepSeconds 1,
         VerifyRunning])"

definition START_MARKER :: string where
  "START_MARKER = ''[ORCHESTRATOR] Started successfully in background (PID:''"

text \<open>
  \<open>runMaintenanceAndDevScripts\<close>. Inputs besides the arguments: the clock and the
  random text of the run identifier, and what \<open>instance.exec\<close> does (\<open>Inl msg\<close>: it
  throws with that message). The result is \<open>Inl msg\<close> when the function throws
  \<open>Error(msg)\<close>, together with the console lines and remote calls in order.
\<close>

definition runMaintenanceAndDevScripts ::
  "run_args \<Rightarrow> nat \<Rightarrow> string \<Rightarrow> (string + exec_result) \<Rightarrow> (string + unit) \<times> event list" where
  "runMaintenanceAndDevScripts args now rnd exec_outcome =
     (if \<not> hasScript (maintenanceScript args) \<and> \<not> hasScript (devScript args)
      then (Inr (),
            [ConsoleLog ''[runMaintenanceAndDevScripts] No maintenance or dev scripts provided; skipping start''])
      else
        let runId = mkRunId now rnd;
            call = InstanceExec (setupAndRunCommand args runId);
            failed = (\<lambda>message.
              (Inl message,
               [call, ConsoleError (''[runMaintenanceAndDevScripts] Failed to start orchestrator: '' @ message)]))
        in case exec_outcome of
             Inl message \<Rightarrow> failed message
           | Inr result \<Rightarrow>
               let out = (case stdout result of None \<Rightarrow> [] | Some s \<Rightarrow> js_trim s);
                   err = (case stderr result of None \<Rightarrow> [] | Some s \<Rightarrow> js_trim s)
               in if exit_code result \<noteq> 0
                  then failed (''Failed to start orchestrator: exit code '' @ js_show_int (exit_code result)
                               @ (if err \<noteq> [] then '' | stderr: '' @ err else []))
                  else if \<not> js_includes out START_MARKER
                  then failed ''Orchestrator did not confirm successful start''
                  else (Inr (),
                        [call, ConsoleLog ''[runMaintenanceAndDevScripts] Orchestrator started successfully'']))"

text \<open>The file paths a remote step writes, removes or redirects to.\<close>

fun step_paths :: "remote_step \<Rightarrow> string list" where
  "step_paths (CatHeredoc p b) = [p]"
| "step_paths (ChmodX p) = [p]"
| "step_paths (RmF p) = [p]"
| "step_paths (NohupBun p l) = [p, l]"
| "step_paths _ = []"

text \<open>
  Every file path generated for a run: the paths of the remote command and the
  exit-code and log paths handed to the orchestrator.
\<close>

definition generated_paths :: "run_args \<Rightarrow> string \<Rightarrow> string list" where
  "generated_paths args runId =
     concat (map step_paths (setupAndRunCommand args runId))
     @ (let c = orchestratorConfig args runId in
        [maintenanceScriptPath c, devScriptPath c, maintenanceExitCodePath c,
         maintenanceErrorLogPath c, devExitCodePath c, devErrorLogPath c])"

text \<open>The paths whose name is built from the run identifier.\<close>

definition run_scoped_paths :: "string \<Rightarrow> string list" where
  "run_scoped_paths runId =
     [orchestratorScriptPath runId, mkMaintenanceExitCodePath runId,
      mkMaintenanceErrorLogPath runId, mkDevExitCodePath runId, mkDevErrorLogPath runId,
      orchestratorLogPath runId]"

text \<open>The script file paths of a run: taken from the identifiers, not from the run identifier.\<close>

definition script_paths :: "run_args \<Rightarrow> string set" where
  "script_paths args =
     (let ids = (case identifiers args of None \<Rightarrow> allocateScriptIdentifiers | Some i \<Rightarrow> i) in
      {scriptPath (maintenance ids), scriptPath (dev ids)})"

text \<open>Scenario A of the specification: maintenance \<open>exit 3\<close>, dev \<open>sleep 9999\<close>.\<close>

definition scenarioA_args :: run_args where
  "scenarioA_args =
     \<lparr> maintenanceScript = Some ''exit 3'', devScript = Some ''sleep 9999'',
       identifiers = None, argConvexUrl = Some ''https://convex.example'',
       argTaskRunJwt = Some ''jwt'' \<rparr>"

section \<open>The orchestrator program generated by buildOrchestratorScript\<close>

text \<open>\<open>s.split("\n")\<close> and \<open>lines.join("\n")\<close>.\<close>

fun js_split_nl :: "string \<Rightarrow> string list" where
  "js_split_nl [] = [[]]"
| "js_split_nl (c # cs) =
     (if c = CHR 0x0A then [] # js_split_nl cs
      else (c # hd (js_split_nl cs)) # tl (js_split_nl cs))"

fun js_join_nl :: "string list \<Rightarrow> string" where
  "js_join_nl [] = []"
| "js_join_nl [l] = l"
| "js_join_nl (l # m # ls) = l @ [CHR 0x0A] @ js_join_nl (m # ls)"

definition is_digit :: "char \<Rightarrow> bool" where
  "is_digit c \<longleftrightarrow> c \<in> set ''0123456789''"

definition digits_value :: "string \<Rightarrow> nat" where
  "digits_value ds = foldl (\<lambda>acc c. 10 * acc + (of_char c - 48)) 0 ds"

text \<open>
  \<open>Number.parseInt(s, 10)\<close>: leading white space is skipped, one sign is accepted, the
  longest run of decimal digits is read, and anything after it is ignored. \<open>None\<close> is
  \<open>NaN\<close>: there was no digit to read.
\<close>

definition parseInt10 :: "string \<Rightarrow> int option" where
  "parseInt10 s =
     (let s1 = dropWhile is_js_ws s;
          neg = (s1 \<noteq> [] \<and> hd s1 = CHR ''-'');
          s2 = (if s1 \<noteq> [] \<and> (hd s1 = CHR ''-'' \<or> hd s1 = CHR ''+'') then tl s1 else s1);
          ds = takeWhile is_digit s2
      in if ds = [] then None
         else Some (if neg then - int (digits_value ds) else int (digits_value ds)))"

definition bool_text :: "bool \<Rightarrow> string" where
  "bool_text b = (if b then ''true'' else ''false'')"

definition squote :: "string \<Rightarrow> string" where
  "squote s = [CHR 0x27] @ s @ [CHR 0x27]"

text \<open>
  What the world answers to the orchestrator. \<open>Inl msg\<close> means that the call throws and
  that \<open>msg\<close> is the text of the thrown value (\<open>error.message\<close>). Bun's shell throws
  on a non-zero exit status. \<open>hasSession w i\<close> answers the \<open>i\<close>-th
  \<open>tmux has-session\<close>; \<open>fileExists w p i\<close> answers the \<open>i\<close>-th \<open>exists()\<close> on \<open>p\<close>.
\<close>

datatype fetch_outcome = FetchThrows string | Response nat "string + string"

record world =
  hasSession :: "nat \<Rightarrow> string + int"
  newWindow :: "string \<Rightarrow> string + unit"
  sendKeys :: "string \<Rightarrow> string + unit"
  listWindows :: "string + string"
  fileExists :: "string \<Rightarrow> nat \<Rightarrow> bool"
  fileText :: "string \<Rightarrow> string + string"
  rmForce :: "string \<Rightarrow> string + unit"
  fetch :: "http_request \<Rightarrow> fetch_outcome"

definition hasSessionCmd :: event where
  "hasSessionCmd = Tmux [''has-session'', ''-t'', ''cmux'']"

definition newWindowCmd :: "string \<Rightarrow> event" where
  "newWindowCmd name = Tmux [''new-window'', ''-t'', ''cmux:'', ''-n'', name, ''-d'']"

text \<open>
  The command typed into a window: run the script, tee its output to the log, write the
  pipeline's exit status to the exit-code file, then \<open>andThen\<close>.
\<close>

definition sendKeysCmd :: "string \<Rightarrow> string \<Rightarrow> string \<Rightarrow> string \<Rightarrow> string \<Rightarrow> event" where
  "sendKeysCmd window script logPath exitPath andThen =
     Tmux [''send-keys'', ''-t'', ''cmux:'' @ window,
           ''zsh '' @ squote script @ '' 2>&1 | tee '' @ squote logPath
             @ ''; echo ${pipestatus[1]} > '' @ squote exitPath @ andThen,
           ''C-m'']"

function waitForTmuxSession_loop :: "world \<Rightarrow> nat \<Rightarrow> bool \<times> event list" where
  "waitForTmuxSession_loop w i =
     (if i < 20 then
        (if hasSession w i = Inr 0
         then (True, [hasSessionCmd, ConsoleLog ''[ORCHESTRATOR] tmux session found''])
         else (case waitForTmuxSession_loop w (Suc i) of
                 (found, t) \<Rightarrow> (found, hasSessionCmd # Sleep 500 # t)))
      else (False, []))"
  by pat_completeness auto
termination
  by (relation "measure (\<lambda>(w, i). 20 - i)") auto

declare waitForTmuxSession_loop.simps [simp del]

definition waitForTmuxSession :: "world \<Rightarrow> (string + unit) \<times> event list" where
  "waitForTmuxSession w =
     (case waitForTmuxSession_loop w 0 of
        (True, t) \<Rightarrow> (Inr (), t)
      | (False, t) \<Rightarrow>
          (case hasSession w 20 of
             Inl msg \<Rightarrow> (Inl msg, t @ [hasSessionCmd])
           | Inr code \<Rightarrow>
               if code \<noteq> 0 then (Inl ''Error: cmux session does not exist'', t @ [hasSessionCmd])
               else (Inr (), t @ [hasSessionCmd])))"

text \<open>One of the two window-creation blocks of \<open>createWindows\<close>; the error is rethrown.\<close>

definition createWindow :: "world \<Rightarrow> string \<Rightarrow> (string + unit) \<times> event list" where
  "createWindow w name =
     (case newWindow w name of
        Inl msg \<Rightarrow>
          (Inl msg,
           [ConsoleLog (''[ORCHESTRATOR] Creating '' @ name @ '' window...''), newWindowCmd name,
            ConsoleError (''[ORCHESTRATOR] Failed to create '' @ name @ '' window:'')])
      | Inr _ \<Rightarrow>
          (Inr (),
           [ConsoleLog (''[ORCHESTRATOR] Creating '' @ name @ '' window...''), newWindowCmd name,
            ConsoleLog (''[ORCHESTRATOR] '' @ name @ '' window created'')]))"

definition createWindows :: "OrchestratorScriptConfig \<Rightarrow> world \<Rightarrow> (string + unit) \<times> event list" where
  "createWindows cfg w =
     (case waitForTmuxSession w of
        (Inl msg, t) \<Rightarrow> (Inl msg, t)
      | (Inr _, t) \<Rightarrow>
          (case (if hasMaintenanceScript cfg then createWindow w (maintenanceWindowName cfg)
                 else (Inr (), [])) of
             (Inl msg, tm) \<Rightarrow> (Inl msg, t @ tm)
           | (Inr _, tm) \<Rightarrow>
               (case (if hasDevScript cfg then createWindow w (devWindowName cfg)
                      else (Inr (), [])) of
                  (Inl msg, td) \<Rightarrow> (Inl msg, t @ tm @ td)
                | (Inr _, td) \<Rightarrow> (Inr (), t @ tm @ td))))"

text \<open>
  The wait loop of \<open>runMaintenanceScript\<close>: at most \<open>maxAttempts\<close> polls one second
  apart. The result is the final value of \<open>attempts\<close>.
\<close>

definition maxAttempts :: nat where
  "maxAttempts = 600"

function waitForExitCode :: "world \<Rightarrow> string \<Rightarrow> nat \<Rightarrow> nat \<times> event list" where
  "waitForExitCode w path attempts =
     (if attempts < maxAttempts then
        (if fileExists w path attempts then (attempts, [FileExists path])
         else (case waitForExitCode w path (Suc attempts) of
                 (a, t) \<Rightarrow> (a, FileExists path # Sleep 1000 # t)))
      else (attempts, []))"
  by pat_completeness auto
termination
  by (relation "measure (\<lambda>(w, path, attempts). maxAttempts - attempts)") auto

declare waitForExitCode.simps [simp del]

text \<open>
  The block that reads the error log, the same in \<open>runMaintenanceScript\<close> and in
  \<open>startDevScript\<close> up to the tag of its console line: the last 100 lines of the
  trimmed log, or the empty text when the log is missing or cannot be read.
\<close>

definition readErrorLog :: "world \<Rightarrow> string \<Rightarrow> string \<Rightarrow> string \<times> event list" where
  "readErrorLog w tag path =
     (if fileExists w path 0 then
        (case fileText w path of
           Inl msg \<Rightarrow>
             ([], [FileExists path, FileText path,
                   ConsoleError (tag @ '' Failed to read error log:'')])
         | Inr logContent \<Rightarrow>
             (js_join_nl (js_slice_last 100 (js_split_nl (js_trim logContent))),
              [FileExists path, FileText path]))
      else ([], [FileExists path]))"

record maintenance_result =
  exitCode :: int
  error :: "string option"

definition maintenanceCaught :: "string \<Rightarrow> event list \<Rightarrow> maintenance_result \<times> event list" where
  "maintenanceCaught msg t =
     (\<lparr> exitCode = 1, error = Some (''Maintenance script execution failed: '' @ msg) \<rparr>,
      t @ [ConsoleError (''[MAINTENANCE] Error: '' @ msg)])"

text \<open>
  \<open>runMaintenanceScript\<close> in three parts, in the order of the source: the tail after
  the exit code has been parsed, the part from the appearance of the exit-code file, and
  the whole function. \<open>t\<close> is what has been done so far; every throw inside the
  \<open>try\<close> ends in \<open>maintenanceCaught\<close>.
\<close>

definition maintenanceCompleted ::
  "OrchestratorScriptConfig \<Rightarrow> world \<Rightarrow> int \<Rightarrow> event list \<Rightarrow> maintenance_result \<times> event list" where
  "maintenanceCompleted cfg w code t =
     (let t3 = t @ [ConsoleLog (''[MAINTENANCE] Script completed with exit code '' @ js_show_int code)]
      in if code \<noteq> 0
         then (case readErrorLog w ''[MAINTENANCE]'' (maintenanceErrorLogPath cfg) of
                 (errorDetails, tlog) \<Rightarrow>
                   (\<lparr> exitCode = code,
                      error = Some (if errorDetails \<noteq> [] then errorDetails
                                    else ''Maintenance script failed with exit code '' @ js_show_int code) \<rparr>,
                    t3 @ tlog))
         else (\<lparr> exitCode = 0, error = None \<rparr>, t3))"

definition maintenanceExitCodeFound ::
  "OrchestratorScriptConfig \<Rightarrow> world \<Rightarrow> event list \<Rightarrow> maintenance_result \<times> event list" where
  "maintenanceExitCodeFound cfg w t =
     (case fileText w (maintenanceExitCodePath cfg) of
        Inl msg \<Rightarrow> maintenanceCaught msg (t @ [FileText (maintenanceExitCodePath cfg)])
      | Inr exitCodeText \<Rightarrow>
          let exitCodeRaw = js_trim exitCodeText;
              t2 = t @ [FileText (maintenanceExitCodePath cfg), RmForce (maintenanceExitCodePath cfg)]
          in case rmForce w (maintenanceExitCodePath cfg) of
               Inl msg \<Rightarrow> maintenanceCaught msg t2
             | Inr _ \<Rightarrow>
                 (case parseInt10 exitCodeRaw of
                    None \<Rightarrow>
                      (\<lparr> exitCode = 1, error = Some ''Maintenance script exit code missing or invalid'' \<rparr>,
                       t2 @ [ConsoleError (''[MAINTENANCE] Invalid exit code value: '' @ exitCodeRaw)])
                  | Some code \<Rightarrow> maintenanceCompleted cfg w code t2))"

definition runMaintenanceScript ::
  "OrchestratorScriptConfig \<Rightarrow> world \<Rightarrow> maintenance_result \<times> event list" where
  "runMaintenanceScript cfg w =
     (if \<not> hasMaintenanceScript cfg
      then (\<lparr> exitCode = 0, error = None \<rparr>, [ConsoleLog ''[MAINTENANCE] No maintenance script to run''])
      else
        let t0 = [ConsoleLog ''[MAINTENANCE] Starting maintenance script...'',
                  sendKeysCmd (maintenanceWindowName cfg) (maintenanceScriptPath cfg)
                    (maintenanceErrorLogPath cfg) (maintenanceExitCodePath cfg) ''; exec zsh'']
        in case sendKeys w (maintenanceWindowName cfg) of
             Inl msg \<Rightarrow> maintenanceCaught msg t0
           | Inr _ \<Rightarrow>
               (case waitForExitCode w (maintenanceExitCodePath cfg) 0 of
                  (attempts, tp) \<Rightarrow>
                    let t1 = t0 @ [Sleep 2000, ConsoleLog ''[MAINTENANCE] Waiting for script to complete...''] @ tp
                    in if attempts \<ge> maxAttempts
                       then (\<lparr> exitCode = 124, error = Some ''Maintenance script timed out after 10 minutes'' \<rparr>,
                             t1 @ [ConsoleError ''[MAINTENANCE] Script timed out after 10 minutes''])
                       else maintenanceExitCodeFound cfg w t1))"

text \<open>
  \<open>startDevScript\<close>, in the same three parts. Its result is the \<open>error\<close> field.
\<close>

definition devCaught :: "string \<Rightarrow> event list \<Rightarrow> string option \<times> event list" where
  "devCaught msg t =
     (Some (''Dev script execution failed: '' @ msg), t @ [ConsoleError (''[DEV] Error: '' @ msg)])"

definition devStarted :: "event list \<Rightarrow> string option \<times> event list" where
  "devStarted t = (None, t @ [ConsoleLog ''[DEV] Script started successfully''])"

definition devExitedEarly ::
  "OrchestratorScriptConfig \<Rightarrow> world \<Rightarrow> int \<Rightarrow> event list \<Rightarrow> string option \<times> event list" where
  "devExitedEarly cfg w code t =
     (if code \<noteq> 0
      then (case readErrorLog w ''[DEV]'' (devErrorLogPath cfg) of
              (errorDetails, tlog) \<Rightarrow>
                (Some (if errorDetails \<noteq> [] then errorDetails
                       else ''Dev script failed with exit code '' @ js_show_int code),
                 t @ [ConsoleError (''[DEV] Script exited early with code '' @ js_show_int code)] @ tlog))
      else devStarted t)"

definition devExitCodeFound ::
  "OrchestratorScriptConfig \<Rightarrow> world \<Rightarrow> event list \<Rightarrow> string option \<times> event list" where
  "devExitCodeFound cfg w t =
     (case fileText w (devExitCodePath cfg) of
        Inl msg \<Rightarrow> devCaught msg (t @ [FileText (devExitCodePath cfg)])
      | Inr exitCodeText \<Rightarrow>
          let exitCodeRaw = js_trim exitCodeText;
              t2 = t @ [FileText (devExitCodePath cfg), RmForce (devExitCodePath cfg)]
          in case rmForce w (devExitCodePath cfg) of
               Inl msg \<Rightarrow> devCaught msg t2
             | Inr _ \<Rightarrow>
                 (case parseInt10 exitCodeRaw of
                    None \<Rightarrow>
                      (Some ''Dev script exit code missing or invalid'',
                       t2 @ [ConsoleError (''[DEV] Invalid exit code value: '' @ exitCodeRaw)])
                  | Some code \<Rightarrow> devExitedEarly cfg w code t2))"

definition listWindowsCmd :: event where
  "listWindowsCmd = Tmux [''list-windows'', ''-t'', ''cmux'']"

definition startDevScript ::
  "OrchestratorScriptConfig \<Rightarrow> world \<Rightarrow> string option \<times> event list" where
  "startDevScript cfg w =
     (if \<not> hasDevScript cfg
      then (None, [ConsoleLog ''[DEV] No dev script to run''])
      else
        let t0 = [ConsoleLog ''[DEV] Starting dev script...'',
                  sendKeysCmd (devWindowName cfg) (devScriptPath cfg)
                    (devErrorLogPath cfg) (devExitCodePath cfg) []]
        in case sendKeys w (devWindowName cfg) of
             Inl msg \<Rightarrow> devCaught msg t0
           | Inr _ \<Rightarrow>
               (case listWindows w of
                  Inl msg \<Rightarrow> devCaught msg (t0 @ [Sleep 2000, listWindowsCmd])
                | Inr windowCheck \<Rightarrow>
                    if \<not> js_includes windowCheck (devWindowName cfg)
                    then (Some ''Dev window not found after starting script'',
                          t0 @ [Sleep 2000, listWindowsCmd,
                                ConsoleError ''[DEV] ERROR: Dev window not found after starting script''])
                    else
                      let t1 = t0 @ [Sleep 2000, listWindowsCmd,
                                     ConsoleLog ''[DEV] Checking for early exit...'', Sleep 5000,
                                     FileExists (devExitCodePath cfg)]
                      in if fileExists w (devExitCodePath cfg) 0
                         then devExitCodeFound cfg w t1
                         else devStarted t1))"

text \<open>\<open>response.ok\<close>: a status from 200 to 299.\<close>

definition response_ok :: "nat \<Rightarrow> bool" where
  "response_ok status \<longleftrightarrow> 200 \<le> status \<and> status \<le> 299"

definition reportRequest :: "OrchestratorScriptConfig \<Rightarrow> string option \<Rightarrow> string option \<Rightarrow> http_request" where
  "reportRequest cfg maintenanceError devError =
     \<lparr> url = convexUrl cfg @ ''/http/api/task-runs/report-environment-error'',
       http_method = ''POST'',
       headers = [(''Content-Type'', ''application/json''),
                  (''Authorization'', ''Bearer '' @ taskRunJwt cfg)],
       body = (if js_truthy maintenanceError then [(''maintenanceError'', the maintenanceError)] else [])
              @ (if js_truthy devError then [(''devError'', the devError)] else []) \<rparr>"

definition reportErrorToConvex ::
  "OrchestratorScriptConfig \<Rightarrow> world \<Rightarrow> string option \<Rightarrow> string option \<Rightarrow> event list" where
  "reportErrorToConvex cfg w maintenanceError devError =
     (if taskRunJwt cfg = [] \<or> convexUrl cfg = []
      then [ConsoleLog ''[ORCHESTRATOR] Skipping Convex error reporting: missing configuration'']
      else if \<not> js_truthy maintenanceError \<and> \<not> js_truthy devError
      then [ConsoleLog ''[ORCHESTRATOR] No errors to report'']
      else
        let req = reportRequest cfg maintenanceError devError;
            t0 = [ConsoleLog ''[ORCHESTRATOR] Reporting errors to Convex HTTP action...'', Fetch req];
            caught = [ConsoleError ''[ORCHESTRATOR] Exception while reporting errors to Convex:'']
        in case fetch w req of
             FetchThrows msg \<Rightarrow> t0 @ caught
           | Response status text \<Rightarrow>
               let t1 = t0 @ [ConsoleLog (''[ORCHESTRATOR] Convex response status: '' @ js_show_int (int status))]
               in (case text of
                     Inl msg \<Rightarrow> t1 @ caught
                   | Inr responseText \<Rightarrow>
                       if \<not> response_ok status
                       then t1 @ [ConsoleError (''[ORCHESTRATOR] Failed to report errors to Convex: ''
                                               @ js_show_int (int status)),
                                  ConsoleError (''[ORCHESTRATOR] Response body: '' @ responseText)]
                       else t1 @ [ConsoleLog (''[ORCHESTRATOR] Successfully reported errors to Convex: ''
                                             @ responseText)]))"

text \<open>
  The main function of the orchestrator: the exit status given to \<open>process.exit\<close> and
  everything done before it.
\<close>

definition orchestratorMain :: "OrchestratorScriptConfig \<Rightarrow> world \<Rightarrow> nat \<times> event list" where
  "orchestratorMain cfg w =
     (let t0 = [ConsoleLog ''[ORCHESTRATOR] Starting orchestrator...'',
                ConsoleLog (''[ORCHESTRATOR] CONVEX_URL: '' @ convexUrl cfg),
                ConsoleLog (''[ORCHESTRATOR] TASK_RUN_JWT present: '' @ bool_text (taskRunJwt cfg \<noteq> []))]
      in case createWindows cfg w of
           (Inl msg, tc) \<Rightarrow> (1, t0 @ tc @ [ConsoleError (''[ORCHESTRATOR] Fatal error: '' @ msg)])
         | (Inr _, tc) \<Rightarrow>
             (case runMaintenanceScript cfg w of
                (maintenanceResult, tm) \<Rightarrow>
                  (case startDevScript cfg w of
                     (devError, td) \<Rightarrow>
                       let lm = (if js_truthy (error maintenanceResult)
                                 then ConsoleError (''[ORCHESTRATOR] Maintenance completed with error: ''
                                                    @ the (error maintenanceResult))
                                 else ConsoleLog ''[ORCHESTRATOR] Maintenance completed successfully'');
                           ld = (if js_truthy devError
                                 then ConsoleError (''[ORCHESTRATOR] Dev script failed: '' @ the devError)
                                 else ConsoleLog ''[ORCHESTRATOR] Dev script started successfully'');
                           hasError = (js_truthy (error maintenanceResult) \<or> js_truthy devError);
                           lc = ConsoleLog (''[ORCHESTRATOR] Checking if should report errors - maintenance: ''
                                            @ bool_text (js_truthy (error maintenanceResult)) @ '', dev: ''
                                            @ bool_text (js_truthy devError))
                       in if hasError
                          then (1, t0 @ tc @ tm @ [lm] @ td @ [ld, lc]
                                   @ reportErrorToConvex cfg w (error maintenanceResult) devError)
                          else (0, t0 @ tc @ tm @ [lm] @ td
                                   @ [ld, lc, ConsoleLog ''[ORCHESTRATOR] No errors to report'',
                                      ConsoleLog ''[ORCHESTRATOR] Orchestrator completed successfully'']))))"

text \<open>Kinds of events, and the names used to state the properties.\<close>

fun is_fetch :: "event \<Rightarrow> bool" where
  "is_fetch (Fetch req) = True"
| "is_fetch _ = False"

fun is_tmux :: "event \<Rightarrow> bool" where
  "is_tmux (Tmux args) = True"
| "is_tmux _ = False"

fun is_console :: "event \<Rightarrow> bool" where
  "is_console (ConsoleLog s) = True"
| "is_console (ConsoleError s) = True"
| "is_console _ = False"

definition maintenanceErrorOf :: "OrchestratorScriptConfig \<Rightarrow> world \<Rightarrow> string option" where
  "maintenanceErrorOf cfg w = error (fst (runMaintenanceScript cfg w))"

definition devErrorOf :: "OrchestratorScriptConfig \<Rightarrow> world \<Rightarrow> string option" where
  "devErrorOf cfg w = fst (startDevScript cfg w)"

definition hasErrorOf :: "OrchestratorScriptConfig \<Rightarrow> world \<Rightarrow> bool" where
  "hasErrorOf cfg w \<longleftrightarrow> js_truthy (maintenanceErrorOf cfg w) \<or> js_truthy (devErrorOf cfg w)"

definition maintenanceSendKeys :: "OrchestratorScriptConfig \<Rightarrow> event" where
  "maintenanceSendKeys cfg =
     sendKeysCmd (maintenanceWindowName cfg) (maintenanceScriptPath cfg)
       (maintenanceErrorLogPath cfg) (maintenanceExitCodePath cfg) ''; exec zsh''"

definition devSendKeys :: "OrchestratorScriptConfig \<Rightarrow> event" where
  "devSendKeys cfg =
     sendKeysCmd (devWindowName cfg) (devScriptPath cfg) (devErrorLogPath cfg) (devExitCodePath cfg) []"

text \<open>Every tmux command that the orchestrator program contains.\<close>

definition orchestratorCommands :: "OrchestratorScriptConfig \<Rightarrow> event set" where
  "orchestratorCommands cfg =
     {hasSessionCmd, newWindowCmd (maintenanceWindowName cfg), newWindowCmd (devWindowName cfg),
      maintenanceSendKeys cfg, devSendKeys cfg, listWindowsCmd}"

text \<open>
  Scenario A as a configuration and a world: the session is there, the maintenance
  script writes exit status 3 before the second poll and leaves one line in its log, the
  dev script keeps running, the control plane answers 200. In \<open>timeout_world\<close> no file
  ever appears.
\<close>

definition scenarioA_cfg :: OrchestratorScriptConfig where
  "scenarioA_cfg = orchestratorConfig scenarioA_args ''1_4fzyo82m''"

definition scenarioA_world :: world where
  "scenarioA_world =
     \<lparr> hasSession = (\<lambda>i. Inr 0),
       newWindow = (\<lambda>name. Inr ()),
       sendKeys = (\<lambda>name. Inr ()),
       listWindows = Inr ''0: zsh* 1: maintenance- 2: dev'',
       fileExists = (\<lambda>p i. (p = ''/var/tmp/cmux-scripts/maintenance_1_4fzyo82m.exit-code'' \<and> 1 \<le> i)
                           \<or> p = ''/var/tmp/cmux-scripts/maintenance_1_4fzyo82m.log''),
       fileText = (\<lambda>p. if p = ''/var/tmp/cmux-scripts/maintenance_1_4fzyo82m.exit-code'' then Inr ''3\<newline>''
                        else if p = ''/var/tmp/cmux-scripts/maintenance_1_4fzyo82m.log'' then Inr ''+ exit 3\<newline>''
                        else Inl ''ENOENT''),
       rmForce = (\<lambda>p. Inr ()),
       fetch = (\<lambda>req. Response 200 (Inr ''ok'')) \<rparr>"

definition timeout_world :: world where
  "timeout_world = scenarioA_world \<lparr> fileExists := (\<lambda>p i. False) \<rparr>"

text \<open>
  The words of the specification, "absent or whitespace-only", for a script text.
\<close>

definition blankText :: "string option \<Rightarrow> bool" where
  "blankText s = (case s of None \<Rightarrow> True | Some t \<Rightarrow> \<forall>c \<in> set t. is_js_ws c)"

definition blank_args :: run_args where
  "blank_args =
     \<lparr> maintenanceScript = Some [CHR 0x20, CHR 0x0A], devScript = None, identifiers = None,
       argConvexUrl = None, argTaskRunJwt = None \<rparr>"

text \<open>
  The launch is confirmed when the remote command returned, exited with status 0 and
  printed the confirmation marker on its standard output.
\<close>

definition launchConfirmed :: "(string + exec_result) \<Rightarrow> bool" where
  "launchConfirmed exec_outcome =
     (case exec_outcome of
        Inl msg \<Rightarrow> False
      | Inr result \<Rightarrow>
          exit_code result = 0
          \<and> js_includes (case stdout result of None \<Rightarrow> [] | Some s \<Rightarrow> s) START_MARKER)"

definition launch_ok :: exec_result where
  "launch_ok = \<lparr> exit_code = 0,
                 stdout = Some ''[ORCHESTRATOR] Started successfully in background (PID: 4242)\<newline>'',
                 stderr = None \<rparr>"

definition launch_unconfirmed :: exec_result where
  "launch_unconfirmed = \<lparr> exit_code = 0, stdout = Some ''\<newline>'', stderr = None \<rparr>"

section \<open>startScreenshotCollection.ts: the VS Code serve-web supervisor\<close>

text \<open>
  The \<open>ChildProcess\<close> object of Node, as far as the module reads it. A handle holds a
  reference to the object, so that a change made through one holder is seen by the others.
\<close>

record child_process =
  killed :: bool
  proc_exitCode :: "int option"
  signalCode :: "string option"

record VSCodeServeWebHandle =
  process :: nat
  executable :: string
  socketPath :: string

datatype vs_event =
    LoggerInfo string
  | LoggerWarn string
  | LoggerError string
  | LoggerDebug string
  | Unlink string
  | Access string
  | Spawn nat string "string list"
  | Kill nat
  | Probe string
  | Timer nat

text \<open>
  The module state (the two cached variables), the process objects, the file system and
  the clock in milliseconds. \<open>history\<close> records every effect together with the cached
  base URL and socket path that a reader would have seen at that moment.
\<close>

record vscode_state =
  currentServeWebBaseUrl :: "string option"
  currentServeWebSocketPath :: "string option"
  children :: "nat \<Rightarrow> child_process"
  files :: "string set"
  clock :: nat
  history :: "(vs_event \<times> string option \<times> string option) list"

text \<open>
  What the operating system and the child do. \<open>child.kill()\<close> of Node sets \<open>killed\<close>
  only when the signal was delivered; it can also return false or throw.
  \<open>unlinkError\<close> is the error code of \<open>unlink\<close> on an existing path (\<open>None\<close>: removed);
  on a missing path the code is ENOENT. \<open>accessFault\<close> is an error of \<open>access\<close> other
  than ENOENT at a given time. The child creates its socket at \<open>socketCreatedAt\<close>, exits
  at \<open>childExit\<close> (time, exit code, signal) and reports an error at \<open>childError\<close>.
  \<open>latency t\<close> is the time a step begun at \<open>t\<close> takes beyond its timer.
  \<open>executableFound\<close> is the result of \<open>getVSCodeExecutable\<close>.
\<close>

datatype kill_outcome = KillDelivered | KillNotDelivered | KillThrows string

record os =
  platform :: string
  publicHost :: "string option"
  executableFound :: "string option"
  pid :: nat
  tmpdir :: string
  spawnOutcome :: "string + nat"
  unlinkError :: "string \<Rightarrow> string option"
  killOutcome :: "nat \<Rightarrow> kill_outcome"
  accessFault :: "nat \<Rightarrow> string option"
  socketCreatedAt :: "nat option"
  childExit :: "(nat \<times> int option \<times> string option) option"
  childError :: "(nat \<times> string) option"
  latency :: "nat \<Rightarrow> nat"
  probeAnswer :: "nat \<Rightarrow> bool"

definition LOCAL_VSCODE_HOST :: "os \<Rightarrow> string" where
  "LOCAL_VSCODE_HOST env =
     (case publicHost env of
        None \<Rightarrow> ''cmux-vscode.local''
      | Some h \<Rightarrow> if js_trim h \<noteq> [] then js_trim h else ''cmux-vscode.local'')"

definition SOCKET_READY_TIMEOUT_MS :: nat where
  "SOCKET_READY_TIMEOUT_MS = 15000"

definition emit :: "vs_event \<Rightarrow> vscode_state \<Rightarrow> vscode_state" where
  "emit e s =
     s\<lparr>history := history s @ [(e, currentServeWebBaseUrl s, currentServeWebSocketPath s)]\<rparr>"

definition getVSCodeServeWebBaseUrl :: "vscode_state \<Rightarrow> string option" where
  "getVSCodeServeWebBaseUrl s = currentServeWebBaseUrl s"

definition getVSCodeServeWebSocketPath :: "vscode_state \<Rightarrow> string option" where
  "getVSCodeServeWebSocketPath s = currentServeWebSocketPath s"

text \<open>The two handlers that \<open>ensureVSCodeServeWeb\<close> registers on the child.\<close>

definition onError :: "string \<Rightarrow> vscode_state \<Rightarrow> vscode_state" where
  "onError err s = emit (LoggerError (''VS Code serve-web process error: '' @ err)) s"

definition exitMessage :: "int option \<Rightarrow> string option \<Rightarrow> string" where
  "exitMessage code signal =
     ''VS Code serve-web process exited''
     @ (case code of None \<Rightarrow> [] | Some c \<Rightarrow> '' with code '' @ js_show_int c)
     @ (if js_truthy signal then '' due to signal '' @ the signal else [])
     @ ''.''"

definition onExit :: "int option \<Rightarrow> string option \<Rightarrow> vscode_state \<Rightarrow> vscode_state" where
  "onExit code signal s =
     (let s1 = (if code = Some 0 \<and> \<not> js_truthy signal
                then emit (LoggerInfo (exitMessage code signal)) s
                else emit (LoggerWarn (exitMessage code signal)) s);
          s2 = (if js_truthy (currentServeWebBaseUrl s1)
                then (emit (LoggerInfo ''Clearing cached VS Code serve-web base URL'') s1)
                       \<lparr>currentServeWebBaseUrl := None\<rparr>
                else s1)
      in s2\<lparr>currentServeWebSocketPath := None\<rparr>)"

text \<open>
  Time passes by \<open>dt\<close>: what the child does in that interval happens, and the handlers
  of the events it raises run.
\<close>

definition advance :: "os \<Rightarrow> nat \<Rightarrow> string \<Rightarrow> nat \<Rightarrow> vscode_state \<Rightarrow> vscode_state" where
  "advance env ref path dt s =
     (let t0 = clock s;
          t1 = t0 + dt;
          s1 = (case socketCreatedAt env of
                  None \<Rightarrow> s
                | Some t \<Rightarrow> if t0 < t \<and> t \<le> t1 then s\<lparr>files := insert path (files s)\<rparr> else s);
          s2 = (case childError env of
                  None \<Rightarrow> s1
                | Some (t, err) \<Rightarrow> if t0 < t \<and> t \<le> t1 then onError err s1 else s1);
          s3 = (case childExit env of
                  None \<Rightarrow> s2
                | Some (t, code, signal) \<Rightarrow>
                    if t0 < t \<and> t \<le> t1
                    then onExit code signal
                           (s2\<lparr>children := (children s2)
                                 (ref := (children s2 ref)\<lparr>proc_exitCode := code, signalCode := signal\<rparr>)\<rparr>)
                    else s2)
      in s3\<lparr>clock := t1\<rparr>)"

definition unlinkFile :: "os \<Rightarrow> string \<Rightarrow> vscode_state \<Rightarrow> (string + unit) \<times> vscode_state" where
  "unlinkFile env path s =
     (let s1 = emit (Unlink path) s
      in if path \<in> files s1
         then (case unlinkError env path of
                 None \<Rightarrow> (Inr (), s1\<lparr>files := files s1 - {path}\<rparr>)
               | Some code \<Rightarrow> (Inl code, s1))
         else (Inl ''ENOENT'', s1))"

definition childKill :: "os \<Rightarrow> nat \<Rightarrow> vscode_state \<Rightarrow> (string + bool) \<times> vscode_state" where
  "childKill env ref s =
     (let s1 = emit (Kill ref) s
      in case killOutcome env ref of
           KillDelivered \<Rightarrow>
             (Inr True, s1\<lparr>children := (children s1)(ref := (children s1 ref)\<lparr>killed := True\<rparr>)\<rparr>)
         | KillNotDelivered \<Rightarrow> (Inr False, s1)
         | KillThrows msg \<Rightarrow> (Inl msg, s1))"

definition createSocketPath :: "os \<Rightarrow> nat \<Rightarrow> string" where
  "createSocketPath env now =
     tmpdir env @ ''/cmux-vscode-'' @ js_show_int (int (pid env)) @ ''-'' @ js_show_int (int now) @ ''.sock''"

definition removeStaleSocket :: "os \<Rightarrow> string \<Rightarrow> vscode_state \<Rightarrow> vscode_state" where
  "removeStaleSocket env path s =
     (case unlinkFile env path s of
        (Inr _, s1) \<Rightarrow> emit (LoggerInfo (''Removed stale VS Code serve-web socket at '' @ path)) s1
      | (Inl code, s1) \<Rightarrow>
          if code = ''ENOENT'' then s1
          else emit (LoggerDebug ''Failed to remove stale VS Code serve-web socket:'') s1)"

function waitForSocket ::
  "os \<Rightarrow> nat \<Rightarrow> string \<Rightarrow> nat \<Rightarrow> vscode_state \<Rightarrow> (string + unit) \<times> vscode_state" where
  "waitForSocket env ref path deadline s =
     (if clock s < deadline then
        (case accessFault env (clock s) of
           Some code \<Rightarrow> (Inl code, emit (Access path) s)
         | None \<Rightarrow>
             if path \<in> files s then (Inr (), emit (Access path) s)
             else waitForSocket env ref path deadline
                    (advance env ref path (100 + latency env (clock s))
                       (emit (Timer 100) (emit (Access path) s))))
      else (Inl (''VS Code serve-web socket '' @ path @ '' was not ready within ''
                 @ js_show_int (int SOCKET_READY_TIMEOUT_MS) @ '' ms''), s))"
  by pat_completeness auto
termination
  by (relation "measure (\<lambda>(env, ref, path, deadline, s). deadline - clock s)")
    (simp_all add: advance_def emit_def Let_def)

declare waitForSocket.simps [simp del]

text \<open>
  The warm-up loop: probes 500 ms apart for 10 s, until one completes. Failing to warm up
  is only a warning.
\<close>

function warmUpLoop :: "os \<Rightarrow> nat \<Rightarrow> string \<Rightarrow> nat \<Rightarrow> vscode_state \<Rightarrow> vscode_state" where
  "warmUpLoop env ref path warmupDeadline s =
     (if clock s < warmupDeadline then
        (if probeAnswer env (clock s)
         then emit (LoggerInfo ''VS Code serve-web warm-up succeeded.'')
                (advance env ref path (latency env (clock s)) (emit (Probe path) s))
         else warmUpLoop env ref path warmupDeadline
                (advance env ref path (500 + latency env (clock s))
                   (emit (Timer 500)
                      (emit (LoggerDebug ''VS Code serve-web warm-up attempt failed:'')
                         (emit (Probe path) s)))))
      else emit (LoggerWarn ''VS Code serve-web did not respond with HTTP 200 during warm-up window.'') s)"
  by pat_completeness auto
termination
  by (relation "measure (\<lambda>(env, ref, path, warmupDeadline, s). warmupDeadline - clock s)")
    (simp_all add: advance_def emit_def Let_def)

declare warmUpLoop.simps [simp del]

definition warmUpVSCodeServeWeb :: "os \<Rightarrow> nat \<Rightarrow> string \<Rightarrow> vscode_state \<Rightarrow> vscode_state" where
  "warmUpVSCodeServeWeb env ref path s = warmUpLoop env ref path (clock s + 10000) s"

text \<open>
  The \<open>catch\<close> block of \<open>ensureVSCodeServeWeb\<close>. \<open>child\<close> is \<open>None\<close> when \<open>spawn\<close>
  itself threw.
\<close>

definition launchFailed ::
  "os \<Rightarrow> nat option \<Rightarrow> string \<Rightarrow> string \<Rightarrow> vscode_state \<Rightarrow> VSCodeServeWebHandle option \<times> vscode_state" where
  "launchFailed env child path err s =
     (let s1 = emit (LoggerError (''Failed to launch VS Code serve-web via unix socket: '' @ err)) s;
          s2 = (case child of
                  None \<Rightarrow> s1
                | Some ref \<Rightarrow>
                    if \<not> killed (children s1 ref) \<and> proc_exitCode (children s1 ref) = None
                    then (case childKill env ref s1 of
                            (Inl msg, s') \<Rightarrow>
                              emit (LoggerWarn ''Failed to terminate VS Code serve-web after launch failure:'') s'
                          | (Inr _, s') \<Rightarrow> s')
                    else s1);
          s3 = snd (unlinkFile env path s2)
      in (None, s3\<lparr>currentServeWebBaseUrl := None, currentServeWebSocketPath := None\<rparr>))"

definition serveWebArgs :: "string \<Rightarrow> string list" where
  "serveWebArgs path =
     [''serve-web'', ''--accept-server-license-terms'', ''--without-connection-token'',
      ''--socket-path'', path]"

definition freshChild :: child_process where
  "freshChild = \<lparr> killed = False, proc_exitCode = None, signalCode = None \<rparr>"

definition ensureVSCodeServeWeb ::
  "os \<Rightarrow> vscode_state \<Rightarrow> VSCodeServeWebHandle option \<times> vscode_state" where
  "ensureVSCodeServeWeb env s =
     (let s0 = emit (LoggerInfo ''Ensuring VS Code serve-web availability...'') s
      in case executableFound env of
           None \<Rightarrow>
             (None, emit (LoggerWarn ''VS Code CLI executable unavailable; serve-web will not be launched.'') s0)
         | Some exe \<Rightarrow>
             if platform env = ''win32''
             then (None, emit (LoggerWarn ''Unix socket mode for VS Code serve-web is unavailable on Windows; skipping launch.'') s0)
             else
               let path = createSocketPath env (clock s0);
                   s1 = removeStaleSocket env path s0;
                   s2 = emit (LoggerInfo (''Starting VS Code serve-web using executable '' @ exe
                                          @ '' with socket '' @ path @ ''...'')) s1
               in case spawnOutcome env of
                    Inl err \<Rightarrow> launchFailed env None path err s2
                  | Inr ref \<Rightarrow>
                      let s3 = emit (Spawn ref exe (serveWebArgs path))
                                 (s2\<lparr>children := (children s2)(ref := freshChild)\<rparr>)
                      in case waitForSocket env ref path (clock s3 + SOCKET_READY_TIMEOUT_MS) s3 of
                           (Inl err, s4) \<Rightarrow> launchFailed env (Some ref) path err s4
                         | (Inr _, s4) \<Rightarrow>
                             let baseUrl = ''http://'' @ LOCAL_VSCODE_HOST env;
                                 s5 = s4\<lparr>currentServeWebSocketPath := Some path,
                                         currentServeWebBaseUrl := Some baseUrl\<rparr>;
                                 s6 = emit (LoggerInfo (''VS Code serve-web ready at '' @ baseUrl)) s5;
                                 s7 = warmUpVSCodeServeWeb env ref path s6
                             in (Some \<lparr> process = ref, executable = exe, socketPath = path \<rparr>, s7))"

text \<open>
  \<open>stopVSCodeServeWeb\<close>. The removal of the socket is started before the child is
  looked at and its outcome arrives later; here it arrives at once.
\<close>

definition stopVSCodeServeWeb ::
  "os \<Rightarrow> VSCodeServeWebHandle option \<Rightarrow> vscode_state \<Rightarrow> vscode_state" where
  "stopVSCodeServeWeb env handle s =
     (case handle of
        None \<Rightarrow> s
      | Some h \<Rightarrow>
          let s1 = s\<lparr>currentServeWebBaseUrl := None, currentServeWebSocketPath := None\<rparr>;
              s2 = (case unlinkFile env (socketPath h) s1 of
                      (Inr _, s') \<Rightarrow> s'
                    | (Inl code, s') \<Rightarrow>
                        if code = ''ENOENT'' then s'
                        else emit (LoggerWarn (''Failed to remove VS Code serve-web socket at ''
                                               @ socketPath h @ '': '' @ code)) s');
              child = children s2 (process h)
          in if killed child \<or> proc_exitCode child \<noteq> None \<or> signalCode child \<noteq> None
             then s2
             else (case childKill env (process h) (emit (LoggerInfo ''Stopping VS Code serve-web process...'') s2) of
                     (Inl msg, s') \<Rightarrow> emit (LoggerError (''Failed to stop VS Code serve-web process: '' @ msg)) s'
                   | (Inr _, s') \<Rightarrow> s'))"

definition since :: "vscode_state \<Rightarrow> vscode_state \<Rightarrow> (vs_event \<times> string option \<times> string option) list" where
  "since s s' = drop (length (history s)) (history s')"

definition grows :: "vscode_state \<Rightarrow> vscode_state \<Rightarrow> bool" where
  "grows s s' \<longleftrightarrow> prefix (history s) (history s')"

fun is_logger :: "vs_event \<Rightarrow> bool" where
  "is_logger (LoggerInfo m) = True"
| "is_logger (LoggerWarn m) = True"
| "is_logger (LoggerError m) = True"
| "is_logger (LoggerDebug m) = True"
| "is_logger _ = False"

fun is_cleanup :: "vs_event \<Rightarrow> bool" where
  "is_cleanup (Unlink p) = True"
| "is_cleanup (Kill r) = True"
| "is_cleanup _ = False"

text \<open>
  The state in which \<open>ensureVSCodeServeWeb\<close> starts to wait for the socket: the stale
  socket has been dealt with and the child has been spawned.
\<close>

definition stateBeforeWait :: "os \<Rightarrow> string \<Rightarrow> nat \<Rightarrow> vscode_state \<Rightarrow> vscode_state" where
  "stateBeforeWait env exe ref s =
     (let s0 = emit (LoggerInfo ''Ensuring VS Code serve-web availability...'') s;
          path = createSocketPath env (clock s0);
          s1 = removeStaleSocket env path s0;
          s2 = emit (LoggerInfo (''Starting VS Code serve-web using executable '' @ exe
                                 @ '' with socket '' @ path @ ''...'')) s1
      in emit (Spawn ref exe (serveWebArgs path)) (s2\<lparr>children := (children s2)(ref := freshChild)\<rparr>))"

text \<open>
  Example worlds: a Linux host where the spawned child (reference 1) stays alive and
  never creates its socket, and one where the child exits with status 1 after 50 ms.
\<close>

definition linux_env :: os where
  "linux_env =
     \<lparr> platform = ''linux'', publicHost = None, executableFound = Some ''/usr/bin/code'',
       pid = 4242, tmpdir = ''/tmp'', spawnOutcome = Inr 1,
       unlinkError = (\<lambda>p. None), killOutcome = (\<lambda>r. KillDelivered),
       accessFault = (\<lambda>t. None), socketCreatedAt = None, childExit = None, childError = None,
       latency = (\<lambda>t. 0), probeAnswer = (\<lambda>t. True) \<rparr>"

definition crash_env :: os where
  "crash_env = linux_env \<lparr> childExit := Some (50, Some 1, None) \<rparr>"

definition idle_state :: vscode_state where
  "idle_state =
     \<lparr> currentServeWebBaseUrl = None, currentServeWebSocketPath = None,
       children = (\<lambda>r. freshChild), files = {}, clock = 0, history = [] \<rparr>"

text \<open>
  A server that is up: both values are cached, the socket file exists and child 1 is
  alive; the handle that \<open>ensureVSCodeServeWeb\<close> returned for it.
\<close>

definition running_state :: vscode_state where
  "running_state =
     \<lparr> currentServeWebBaseUrl = Some ''http://cmux-vscode.local'',
       currentServeWebSocketPath = Some ''/tmp/cmux-vscode-4242-0.sock'',
       children = (\<lambda>r. freshChild), files = {''/tmp/cmux-vscode-4242-0.sock''},
       clock = 20000, history = [] \<rparr>"

definition running_handle :: VSCodeServeWebHandle where
  "running_handle =
     \<lparr> process = 1, executable = ''/usr/bin/code'', socketPath = ''/tmp/cmux-vscode-4242-0.sock'' \<rparr>"

text \<open>A child is alive for \<open>stopVSCodeServeWeb\<close> when none of the three fields says otherwise.\<close>

definition alive :: "child_process \<Rightarrow> bool" where
  "alive c \<longleftrightarrow> \<not> killed c \<and> proc_exitCode c = None \<and> signalCode c = None"

text \<open>What a caller can observe of a state: the cache, the process objects, the files.\<close>

definition observable ::
  "vscode_state \<Rightarrow> string option \<times> string option \<times> (nat \<Rightarrow> child_process) \<times> string set" where
  "observable s = (currentServeWebBaseUrl s, currentServeWebSocketPath s, children s, files s)"

text \<open>The events that are a call of \<open>logger.warn\<close>.\<close>

fun is_warn :: "vs_event \<Rightarrow> bool" where
  "is_warn (LoggerWarn m) = True"
| "is_warn _ = False"

text \<open>
  The first half of \<open>stopVSCodeServeWeb\<close> on a handle, up to and including the removal
  of the socket file; used to state lemmas about the function, see \<open>stop_eq\<close>.
\<close>

definition stopUnlinked :: "os \<Rightarrow> VSCodeServeWebHandle \<Rightarrow> vscode_state \<Rightarrow> vscode_state" where
  "stopUnlinked env h s =
     (let s1 = s\<lparr>currentServeWebBaseUrl := None, currentServeWebSocketPath := None\<rparr>
      in case unlinkFile env (socketPath h) s1 of
           (Inr _, s') \<Rightarrow> s'
         | (Inl code, s') \<Rightarrow>
             if code = ''ENOENT'' then s'
             else emit (LoggerWarn (''Failed to remove VS Code serve-web socket at ''
                                    @ socketPath h @ '': '' @ code)) s')"

text \<open>A machine on which \<open>child.kill()\<close> throws.\<close>

definition stubborn_env :: os where
  "stubborn_env = linux_env \<lparr> killOutcome := (\<lambda>r. KillThrows ''kill EPERM'') \<rparr>"

section \<open>Properties of the launcher\<close>

lemma js_toString_radix_digit: "n < radix \<Longrightarrow> js_toString_radix radix n = [digit_char n]"
  by (simp add: js_toString_radix.simps)

lemma suffix_clash:
  "s1 \<noteq> [] \<Longrightarrow> s2 \<noteq> [] \<Longrightarrow> last s1 \<noteq> last s2 \<Longrightarrow> r1 @ s1 \<noteq> r2 @ s2"
  by (metis last_appendR)

lemma run_scoped_paths_disjoint:
  assumes "r1 \<noteq> r2"
  shows "set (run_scoped_paths r1) \<inter> set (run_scoped_paths r2) = {}"
  using assms
    suffix_clash [of "''.ts''" "''.log''" r1 r2] suffix_clash [of "''.log''" "''.ts''" r1 r2]
    suffix_clash [of "''.exit-code''" "''.log''" r1 r2]
    suffix_clash [of "''.log''" "''.exit-code''" r1 r2]
  by (simp add: run_scoped_paths_def orchestratorScriptPath_def mkMaintenanceExitCodePath_def
      mkMaintenanceErrorLogPath_def mkDevExitCodePath_def mkDevErrorLogPath_def
      orchestratorLogPath_def)

lemma generated_paths_eq:
  "set (generated_paths args r) = set (run_scoped_paths r) \<union> script_paths args"
  by (auto simp: generated_paths_def run_scoped_paths_def script_paths_def
      setupAndRunCommand_def orchestratorConfig_def Let_def)

lemma script_paths_default:
  "identifiers args = None \<Longrightarrow>
   script_paths args = {''/var/tmp/cmux-scripts/maintenance.sh'', ''/var/tmp/cmux-scripts/dev.sh''}"
  by (simp add: script_paths_def allocateScriptIdentifiers_def CMUX_RUNTIME_DIR_def
      MAINTENANCE_SCRIPT_FILENAME_def DEV_SCRIPT_FILENAME_def)

text \<open>
  C4 as stated fails: two runs with distinct run identifiers both write the
  maintenance script to \<open>/var/tmp/cmux-scripts/maintenance.sh\<close>, because
  \<open>allocateScriptIdentifiers\<close> builds the script paths from fixed file names.
\<close>

theorem C4_script_path_shared_counterexample:
  "mkRunId 1 ''0.4fzyo82mvyr'' \<noteq> mkRunId 2 ''0.9k2j5x7qab1''
   \<and> ''/var/tmp/cmux-scripts/maintenance.sh''
       \<in> set (generated_paths scenarioA_args (mkRunId 1 ''0.4fzyo82mvyr''))
   \<and> ''/var/tmp/cmux-scripts/maintenance.sh''
       \<in> set (generated_paths scenarioA_args (mkRunId 2 ''0.9k2j5x7qab1''))"
  by (simp add: generated_paths_eq script_paths_default scenarioA_args_def mkRunId_def
      js_slice_def digit_char_def js_toString_radix_digit)

text \<open>
  C4 (amended): for two distinct run identifiers, the paths built from the run
  identifier (orchestrator file, exit-code files, log files, orchestrator log) of one
  run are all different from those of the other run. The generated paths of a run are
  exactly these and the two script file paths, which come from the identifiers and are
  the same two fixed paths for every run that uses the default identifiers.
\<close>

theorem C4_run_scoped_paths_distinct:
  assumes "r1 \<noteq> r2"
  shows "set (run_scoped_paths r1) \<inter> set (run_scoped_paths r2) = {}
       \<and> set (generated_paths a1 r1) = set (run_scoped_paths r1) \<union> script_paths a1
       \<and> set (generated_paths a2 r2) = set (run_scoped_paths r2) \<union> script_paths a2
       \<and> (identifiers a1 = None \<and> identifiers a2 = None \<longrightarrow> script_paths a1 = script_paths a2)"
  using run_scoped_paths_disjoint [OF assms]
  by (simp add: generated_paths_eq script_paths_default)

theorem C4_run_scoped_paths_distinct_witness:
  "''1_4fzyo82m'' \<noteq> ''2_9k2j5x7q''
   \<and> set (run_scoped_paths ''1_4fzyo82m'') \<inter> set (run_scoped_paths ''2_9k2j5x7q'') = {}"
  using C4_run_scoped_paths_distinct [of "''1_4fzyo82m''" "''2_9k2j5x7q''" scenarioA_args scenarioA_args]
  by (simp add: scenarioA_args_def)

section \<open>Properties of the orchestrator\<close>

lemma js_split_nl_nonempty: "js_split_nl s \<noteq> []"
  by (induction s) auto

lemma js_join_split: "js_join_nl (js_split_nl s) = s"
proof (induction s)
  case Nil then show ?case by simp
next
  case (Cons c cs)
  then show ?case
    using js_split_nl_nonempty [of cs]
    by (cases "js_split_nl cs"; cases "tl (js_split_nl cs)") (auto split: if_splits)
qed

lemma js_join_nl_snoc_empty:
  "js_join_nl (ls @ [[]]) = (if ls = [] then [] else js_join_nl ls @ [CHR 0x0A])"
  by (induction ls rule: js_join_nl.induct) auto

lemma last_js_split_nl_nonempty:
  assumes "s \<noteq> []" "last s \<noteq> CHR 0x0A"
  shows "last (js_split_nl s) \<noteq> []"
proof
  assume e: "last (js_split_nl s) = []"
  have "js_split_nl s = butlast (js_split_nl s) @ [[]]"
    using e js_split_nl_nonempty [of s] append_butlast_last_id by metis
  then have "s = js_join_nl (butlast (js_split_nl s) @ [[]])"
    using js_join_split [of s] by simp
  then have "s = [] \<or> last s = CHR 0x0A"
    by (metis js_join_nl_snoc_empty last_snoc)
  then show False using assms by simp
qed

lemma js_join_nl_last_nonempty: "ls \<noteq> [] \<Longrightarrow> last ls \<noteq> [] \<Longrightarrow> js_join_nl ls \<noteq> []"
  by (induction ls rule: js_join_nl.induct) auto

lemma js_slice_last_last:
  assumes "xs \<noteq> []" "0 < n"
  shows "js_slice_last n xs \<noteq> [] \<and> last (js_slice_last n xs) = last xs"
proof -
  have "length xs - n < length xs" using assms by (cases xs) auto
  then show ?thesis by (simp add: js_slice_last_def)
qed

lemma js_trim_last_not_ws: "js_trim s \<noteq> [] \<Longrightarrow> \<not> is_js_ws (last (js_trim s))"
proof -
  assume a: "js_trim s \<noteq> []"
  then have ne: "dropWhile is_js_ws (rev (dropWhile is_js_ws s)) \<noteq> []"
    by (simp add: js_trim_def)
  have "last (js_trim s) = hd (dropWhile is_js_ws (rev (dropWhile is_js_ws s)))"
    using ne by (simp add: js_trim_def last_rev)
  then show ?thesis using ne hd_dropWhile by metis
qed

lemma error_details_nonempty:
  assumes "js_trim lc \<noteq> []"
  shows "js_join_nl (js_slice_last 100 (js_split_nl (js_trim lc))) \<noteq> []"
proof -
  have "\<not> is_js_ws (last (js_trim lc))" using assms by (rule js_trim_last_not_ws)
  then have "last (js_trim lc) \<noteq> CHR 0x0A" by (auto simp: is_js_ws_def)
  then have "last (js_split_nl (js_trim lc)) \<noteq> []"
    using assms by (simp add: last_js_split_nl_nonempty)
  then show ?thesis
    using js_slice_last_last [OF js_split_nl_nonempty, of 100 "js_trim lc"]
    by (simp add: js_join_nl_last_nonempty)
qed

lemma error_details_empty:
  assumes "js_trim lc = []"
  shows "js_join_nl (js_slice_last 100 (js_split_nl (js_trim lc))) = []"
  using assms by (simp add: js_slice_last_def)

lemma waitForExitCode_found:
  "a \<le> k \<Longrightarrow> k < maxAttempts \<Longrightarrow> fileExists w p k \<Longrightarrow> fst (waitForExitCode w p a) < maxAttempts"
proof (induction w p a rule: waitForExitCode.induct)
  case (1 w path attempts)
  show ?case
  proof (cases "fileExists w path attempts")
    case True
    then show ?thesis using "1.prems" by (simp add: waitForExitCode.simps [of w path attempts])
  next
    case False
    then have "attempts \<noteq> k" using "1.prems" by auto
    then have "Suc attempts \<le> k" using "1.prems" by simp
    then have "fst (waitForExitCode w path (Suc attempts)) < maxAttempts"
      using "1.IH" False "1.prems" by simp
    then show ?thesis using False "1.prems"
      by (subst waitForExitCode.simps) (auto split: prod.splits)
  qed
qed

lemma waitForExitCode_timeout:
  "a \<le> maxAttempts \<Longrightarrow> (\<And>k. a \<le> k \<Longrightarrow> k < maxAttempts \<Longrightarrow> \<not> fileExists w p k) \<Longrightarrow>
   waitForExitCode w p a = (maxAttempts, concat (replicate (maxAttempts - a) [FileExists p, Sleep 1000]))"
proof (induction w p a rule: waitForExitCode.induct)
  case (1 w path attempts)
  show ?case
  proof (cases "attempts < maxAttempts")
    case True
    then have nf: "\<not> fileExists w path attempts" using "1.prems" by simp
    have "waitForExitCode w path (Suc attempts)
          = (maxAttempts, concat (replicate (maxAttempts - Suc attempts) [FileExists path, Sleep 1000]))"
      using "1.IH" [OF True nf] True "1.prems" by simp
    moreover have "maxAttempts - attempts = Suc (maxAttempts - Suc attempts)" using True by simp
    ultimately show ?thesis using True nf
      by (simp add: waitForExitCode.simps [of w path attempts])
  next
    case False
    then have "waitForExitCode w path attempts = (attempts, [])"
      by (subst waitForExitCode.simps) simp
    then show ?thesis using False "1.prems" by simp
  qed
qed

lemma readErrorLog_details:
  "fst (readErrorLog w tag p) =
     (if fileExists w p 0 then (case fileText w p of Inl e \<Rightarrow> [] | Inr lc \<Rightarrow> js_join_nl (js_slice_last 100 (js_split_nl (js_trim lc)))) else [])"
  by (simp add: readErrorLog_def split: sum.splits)

lemma maintenanceCompleted_result:
  "fst (maintenanceCompleted cfg w code t) =
     (if code \<noteq> 0
      then \<lparr> exitCode = code,
             error = Some (if fst (readErrorLog w ''[MAINTENANCE]'' (maintenanceErrorLogPath cfg)) \<noteq> []
                           then fst (readErrorLog w ''[MAINTENANCE]'' (maintenanceErrorLogPath cfg))
                           else ''Maintenance script failed with exit code '' @ js_show_int code) \<rparr>
      else \<lparr> exitCode = 0, error = None \<rparr>)"
  by (simp add: maintenanceCompleted_def Let_def split: prod.splits)

lemma runMaintenanceScript_found:
  assumes "hasMaintenanceScript cfg" "sendKeys w (maintenanceWindowName cfg) = Inr u"
    and "k < maxAttempts" "fileExists w (maintenanceExitCodePath cfg) k"
  shows "\<exists>t. runMaintenanceScript cfg w = maintenanceExitCodeFound cfg w t"
proof -
  have "fst (waitForExitCode w (maintenanceExitCodePath cfg) 0) < maxAttempts"
    using waitForExitCode_found [of 0 k w "maintenanceExitCodePath cfg"] assms by simp
  then show ?thesis using assms
    by (auto simp: runMaintenanceScript_def Let_def split: prod.splits)
qed

lemma maintenanceExitCodeFound_result:
  assumes "fileText w (maintenanceExitCodePath cfg) = Inr content"
    and "rmForce w (maintenanceExitCodePath cfg) = Inr u"
  shows "fst (maintenanceExitCodeFound cfg w t) =
     (case parseInt10 (js_trim content) of
        None \<Rightarrow> \<lparr> exitCode = 1, error = Some ''Maintenance script exit code missing or invalid'' \<rparr>
      | Some code \<Rightarrow> fst (maintenanceCompleted cfg w code (t @ [FileText (maintenanceExitCodePath cfg), RmForce (maintenanceExitCodePath cfg)])))"
  using assms by (simp add: maintenanceExitCodeFound_def Let_def split: option.splits)


lemma parse3: "parseInt10 (js_trim ''3\<newline>'') = Some 3"
  by (simp add: parseInt10_def js_trim_def is_js_ws_def is_digit_def digits_value_def Let_def)

lemma scenarioA_cfg_simps:
  "hasMaintenanceScript scenarioA_cfg" "hasDevScript scenarioA_cfg"
  "maintenanceWindowName scenarioA_cfg = ''maintenance''"
  "devWindowName scenarioA_cfg = ''dev''"
  "maintenanceExitCodePath scenarioA_cfg = ''/var/tmp/cmux-scripts/maintenance_1_4fzyo82m.exit-code''"
  "maintenanceErrorLogPath scenarioA_cfg = ''/var/tmp/cmux-scripts/maintenance_1_4fzyo82m.log''"
  "devExitCodePath scenarioA_cfg = ''/var/tmp/cmux-scripts/dev_1_4fzyo82m.exit-code''"
  "devErrorLogPath scenarioA_cfg = ''/var/tmp/cmux-scripts/dev_1_4fzyo82m.log''"
  "convexUrl scenarioA_cfg = ''https://convex.example''"
  "taskRunJwt scenarioA_cfg = ''jwt''"
  by (simp_all add: scenarioA_cfg_def orchestratorConfig_def scenarioA_args_def hasScript_def
      js_trim_def is_js_ws_def allocateScriptIdentifiers_def MAINTENANCE_WINDOW_NAME_def
      DEV_WINDOW_NAME_def mkMaintenanceExitCodePath_def mkMaintenanceErrorLogPath_def
      mkDevExitCodePath_def mkDevErrorLogPath_def CMUX_RUNTIME_DIR_def)

lemma scenarioA_world_simps:
  "sendKeys scenarioA_world name = Inr ()"
  "newWindow scenarioA_world name = Inr ()"
  "hasSession scenarioA_world i = Inr 0"
  "listWindows scenarioA_world = Inr ''0: zsh* 1: maintenance- 2: dev''"
  "fileExists scenarioA_world p i \<longleftrightarrow>
     (p = ''/var/tmp/cmux-scripts/maintenance_1_4fzyo82m.exit-code'' \<and> 1 \<le> i)
     \<or> p = ''/var/tmp/cmux-scripts/maintenance_1_4fzyo82m.log''"
  "fileText scenarioA_world ''/var/tmp/cmux-scripts/maintenance_1_4fzyo82m.exit-code'' = Inr ''3\<newline>''"
  "fileText scenarioA_world ''/var/tmp/cmux-scripts/maintenance_1_4fzyo82m.log'' = Inr ''+ exit 3\<newline>''"
  "rmForce scenarioA_world p = Inr ()"
  by (simp_all add: scenarioA_world_def)

lemma trim_log: "js_trim ''+ exit 3\<newline>'' = ''+ exit 3''"
  by (simp add: js_trim_def is_js_ws_def)


lemma waitForTmuxSession_loop_events:
  "set (snd (waitForTmuxSession_loop w i))
     \<subseteq> {hasSessionCmd, Sleep 500, ConsoleLog ''[ORCHESTRATOR] tmux session found''}"
proof (induction w i rule: waitForTmuxSession_loop.induct)
  case (1 w i)
  show ?case
  proof (cases "i < 20 \<and> hasSession w i \<noteq> Inr 0")
    case True
    then show ?thesis using "1.IH"
      by (subst waitForTmuxSession_loop.simps) (auto split: prod.splits)
  next
    case False
    then show ?thesis by (subst waitForTmuxSession_loop.simps) auto
  qed
qed

lemma waitForExitCode_events:
  "set (snd (waitForExitCode w p a)) \<subseteq> {FileExists p, Sleep 1000}"
proof (induction w p a rule: waitForExitCode.induct)
  case (1 w path attempts)
  show ?case
  proof (cases "attempts < maxAttempts \<and> \<not> fileExists w path attempts")
    case True
    then show ?thesis using "1.IH"
      by (subst waitForExitCode.simps) (auto split: prod.splits)
  next
    case False
    then show ?thesis by (subst waitForExitCode.simps) auto
  qed
qed

lemma waitForTmuxSession_events:
  "set (snd (waitForTmuxSession w))
     \<subseteq> {hasSessionCmd, Sleep 500, ConsoleLog ''[ORCHESTRATOR] tmux session found''}"
  using waitForTmuxSession_loop_events [of w 0]
  by (auto simp: waitForTmuxSession_def split: prod.splits bool.splits sum.splits if_splits)

lemma createWindow_events:
  "e \<in> set (snd (createWindow w name)) \<Longrightarrow> \<not> is_fetch e \<and> (is_tmux e \<longrightarrow> e = newWindowCmd name)"
  by (auto simp: createWindow_def newWindowCmd_def split: sum.splits)

lemma createWindows_events:
  assumes "e \<in> set (snd (createWindows cfg w))"
  shows "\<not> is_fetch e \<and> (is_tmux e \<longrightarrow> e \<in> orchestratorCommands cfg)"
proof -
  have a: "e \<in> set (snd (waitForTmuxSession w)) \<Longrightarrow> ?thesis"
    using waitForTmuxSession_events [of w] by (auto simp: orchestratorCommands_def hasSessionCmd_def)
  have b: "e \<in> set (snd (createWindow w (maintenanceWindowName cfg))) \<Longrightarrow> ?thesis"
    using createWindow_events [of e w] by (auto simp: orchestratorCommands_def)
  have c: "e \<in> set (snd (createWindow w (devWindowName cfg))) \<Longrightarrow> ?thesis"
    using createWindow_events [of e w] by (auto simp: orchestratorCommands_def)
  have "e \<in> set (snd (waitForTmuxSession w)) \<or> e \<in> set (snd (createWindow w (maintenanceWindowName cfg)))
        \<or> e \<in> set (snd (createWindow w (devWindowName cfg)))"
    using assms by (auto simp: createWindows_def split: prod.splits sum.splits if_splits)
  then show ?thesis using a b c by blast
qed

lemma readErrorLog_events:
  "e \<in> set (snd (readErrorLog w tag p)) \<Longrightarrow> \<not> is_fetch e \<and> \<not> is_tmux e"
  by (auto simp: readErrorLog_def split: sum.splits if_splits)

lemma maintenanceCaught_events:
  "e \<in> set (snd (maintenanceCaught msg t)) \<Longrightarrow> e \<in> set t \<or> (\<not> is_fetch e \<and> \<not> is_tmux e)"
  by (auto simp: maintenanceCaught_def)

lemma maintenanceCompleted_events:
  "e \<in> set (snd (maintenanceCompleted cfg w code t)) \<Longrightarrow> e \<in> set t \<or> (\<not> is_fetch e \<and> \<not> is_tmux e)"
  using readErrorLog_events [of e w "''[MAINTENANCE]''" "maintenanceErrorLogPath cfg"]
  by (auto simp: maintenanceCompleted_def Let_def split: prod.splits if_splits)

lemma maintenanceExitCodeFound_events:
  assumes "e \<in> set (snd (maintenanceExitCodeFound cfg w t))"
  shows "e \<in> set t \<or> (\<not> is_fetch e \<and> \<not> is_tmux e)"
proof (cases "fileText w (maintenanceExitCodePath cfg)")
  case (Inl msg)
  then show ?thesis using assms maintenanceCaught_events [of e msg]
    by (fastforce simp: maintenanceExitCodeFound_def)
next
  case (Inr content)
  note ft = this
  show ?thesis
  proof (cases "rmForce w (maintenanceExitCodePath cfg)")
    case (Inl msg)
    then show ?thesis using assms ft maintenanceCaught_events [of e msg]
      by (fastforce simp: maintenanceExitCodeFound_def Let_def)
  next
    case (Inr u)
    note rm = this
    show ?thesis
    proof (cases "parseInt10 (js_trim content)")
      case None
      then show ?thesis using assms ft rm
        by (auto simp: maintenanceExitCodeFound_def Let_def)
    next
      case (Some code)
      then show ?thesis using assms ft rm maintenanceCompleted_events [of e cfg w code]
        by (fastforce simp: maintenanceExitCodeFound_def Let_def)
    qed
  qed
qed

lemma is_tmux_sendKeysCmd [simp]: "is_tmux (sendKeysCmd a b c d x)" "\<not> is_fetch (sendKeysCmd a b c d x)"
  by (simp_all add: sendKeysCmd_def)

lemma runMaintenanceScript_events:
  assumes "e \<in> set (snd (runMaintenanceScript cfg w))"
  shows "\<not> is_fetch e \<and> (is_tmux e \<longrightarrow> e = maintenanceSendKeys cfg)"
proof (cases "hasMaintenanceScript cfg")
  case False
  then show ?thesis using assms by (auto simp: runMaintenanceScript_def)
next
  case True
  let ?t0 = "[ConsoleLog ''[MAINTENANCE] Starting maintenance script...'', maintenanceSendKeys cfg]"
  have t0: "\<And>x. x \<in> set ?t0 \<Longrightarrow> \<not> is_fetch x \<and> (is_tmux x \<longrightarrow> x = maintenanceSendKeys cfg)"
    by (auto simp: maintenanceSendKeys_def)
  show ?thesis
  proof (cases "sendKeys w (maintenanceWindowName cfg)")
    case (Inl msg)
    then have "e \<in> set (snd (maintenanceCaught msg ?t0))"
      using assms True by (simp add: runMaintenanceScript_def maintenanceSendKeys_def)
    then have "e \<in> set ?t0 \<or> (\<not> is_fetch e \<and> \<not> is_tmux e)"
      by (rule maintenanceCaught_events)
    then show ?thesis using t0 [of e] by fast
  next
    case (Inr u)
    obtain attempts tp where wt: "waitForExitCode w (maintenanceExitCodePath cfg) 0 = (attempts, tp)"
      by (cases "waitForExitCode w (maintenanceExitCodePath cfg) 0")
    let ?t1 = "?t0 @ [Sleep 2000, ConsoleLog ''[MAINTENANCE] Waiting for script to complete...''] @ tp"
    have tp: "set tp \<subseteq> {FileExists (maintenanceExitCodePath cfg), Sleep 1000}"
      using waitForExitCode_events [of w "maintenanceExitCodePath cfg" 0] wt by simp
    have t1: "\<And>x. x \<in> set ?t1 \<Longrightarrow> \<not> is_fetch x \<and> (is_tmux x \<longrightarrow> x = maintenanceSendKeys cfg)"
      using tp by (auto simp: maintenanceSendKeys_def)
    show ?thesis
    proof (cases "attempts \<ge> maxAttempts")
      case True
      then have "e \<in> set (?t1 @ [ConsoleError ''[MAINTENANCE] Script timed out after 10 minutes''])"
        using assms \<open>hasMaintenanceScript cfg\<close> Inr wt
        by (simp add: runMaintenanceScript_def maintenanceSendKeys_def)
      then have "e \<in> set ?t1 \<or> e = ConsoleError ''[MAINTENANCE] Script timed out after 10 minutes''"
        by (simp only: set_append Un_iff set_simps insert_iff empty_iff) fast
      then show ?thesis using t1 [of e] by fastforce
    next
      case False
      then have "e \<in> set (snd (maintenanceExitCodeFound cfg w ?t1))"
        using assms \<open>hasMaintenanceScript cfg\<close> Inr wt
        by (simp add: runMaintenanceScript_def maintenanceSendKeys_def)
      then have "e \<in> set ?t1 \<or> (\<not> is_fetch e \<and> \<not> is_tmux e)"
        by (rule maintenanceExitCodeFound_events)
      then show ?thesis using t1 [of e] by fast
    qed
  qed
qed

lemma devCaught_events:
  "e \<in> set (snd (devCaught msg t)) \<Longrightarrow> e \<in> set t \<or> (\<not> is_fetch e \<and> \<not> is_tmux e)"
  by (auto simp: devCaught_def)

lemma devStarted_events:
  "e \<in> set (snd (devStarted t)) \<Longrightarrow> e \<in> set t \<or> (\<not> is_fetch e \<and> \<not> is_tmux e)"
  by (auto simp: devStarted_def)

lemma devExitedEarly_events:
  "e \<in> set (snd (devExitedEarly cfg w code t)) \<Longrightarrow> e \<in> set t \<or> (\<not> is_fetch e \<and> \<not> is_tmux e)"
  using readErrorLog_events [of e w "''[DEV]''" "devErrorLogPath cfg"] devStarted_events [of e t]
  by (auto simp: devExitedEarly_def Let_def split: prod.splits if_splits)

lemma devExitCodeFound_events:
  assumes "e \<in> set (snd (devExitCodeFound cfg w t))"
  shows "e \<in> set t \<or> (\<not> is_fetch e \<and> \<not> is_tmux e)"
proof (cases "fileText w (devExitCodePath cfg)")
  case (Inl msg)
  then show ?thesis using assms devCaught_events [of e msg]
    by (fastforce simp: devExitCodeFound_def)
next
  case (Inr content)
  note ft = this
  show ?thesis
  proof (cases "rmForce w (devExitCodePath cfg)")
    case (Inl msg)
    then show ?thesis using assms ft devCaught_events [of e msg]
      by (fastforce simp: devExitCodeFound_def Let_def)
  next
    case (Inr u)
    note rm = this
    show ?thesis
    proof (cases "parseInt10 (js_trim content)")
      case None
      then show ?thesis using assms ft rm
        by (auto simp: devExitCodeFound_def Let_def)
    next
      case (Some code)
      then show ?thesis using assms ft rm devExitedEarly_events [of e cfg w code]
        by (fastforce simp: devExitCodeFound_def Let_def)
    qed
  qed
qed

lemma listWindowsCmd_kind [simp]: "\<not> is_fetch listWindowsCmd" "is_tmux listWindowsCmd"
  by (simp_all add: listWindowsCmd_def)

lemma startDevScript_events:
  assumes "e \<in> set (snd (startDevScript cfg w))"
  shows "\<not> is_fetch e \<and> (is_tmux e \<longrightarrow> e = devSendKeys cfg \<or> e = listWindowsCmd)"
proof (cases "hasDevScript cfg")
  case False
  then show ?thesis using assms by (auto simp: startDevScript_def)
next
  case True
  let ?t0 = "[ConsoleLog ''[DEV] Starting dev script...'', devSendKeys cfg]"
  let ?P = "\<lambda>x. \<not> is_fetch x \<and> (is_tmux x \<longrightarrow> x = devSendKeys cfg \<or> x = listWindowsCmd)"
  have t0: "\<And>x. x \<in> set ?t0 \<Longrightarrow> ?P x"
    by (auto simp: devSendKeys_def)
  show ?thesis
  proof (cases "sendKeys w (devWindowName cfg)")
    case (Inl msg)
    then have "e \<in> set (snd (devCaught msg ?t0))"
      using assms True by (simp add: startDevScript_def devSendKeys_def)
    then have "e \<in> set ?t0 \<or> (\<not> is_fetch e \<and> \<not> is_tmux e)"
      by (rule devCaught_events)
    then show ?thesis using t0 [of e] by fast
  next
    case (Inr u)
    note sk = this
    show ?thesis
    proof (cases "listWindows w")
      case (Inl msg)
      let ?t = "?t0 @ [Sleep 2000, listWindowsCmd]"
      have "e \<in> set (snd (devCaught msg ?t))"
        using assms True sk Inl by (simp add: startDevScript_def devSendKeys_def)
      then have "e \<in> set ?t \<or> (\<not> is_fetch e \<and> \<not> is_tmux e)"
        by (rule devCaught_events)
      moreover have "\<And>x. x \<in> set ?t \<Longrightarrow> ?P x" by (auto simp: devSendKeys_def)
      ultimately show ?thesis by fast
    next
      case (Inr windowCheck)
      note lw = this
      let ?t1 = "?t0 @ [Sleep 2000, listWindowsCmd, ConsoleLog ''[DEV] Checking for early exit...'',
                        Sleep 5000, FileExists (devExitCodePath cfg)]"
      have t1: "\<And>x. x \<in> set ?t1 \<Longrightarrow> ?P x" by (auto simp: devSendKeys_def)
      show ?thesis
      proof (cases "js_includes windowCheck (devWindowName cfg)")
        case False
        then show ?thesis using assms True sk lw
          by (auto simp: startDevScript_def devSendKeys_def)
      next
        case inc: True
        show ?thesis
        proof (cases "fileExists w (devExitCodePath cfg) 0")
          case True
          then have "e \<in> set (snd (devExitCodeFound cfg w ?t1))"
            using assms \<open>hasDevScript cfg\<close> sk lw inc by (simp add: startDevScript_def devSendKeys_def)
          then have "e \<in> set ?t1 \<or> (\<not> is_fetch e \<and> \<not> is_tmux e)"
            by (rule devExitCodeFound_events)
          then show ?thesis using t1 [of e] by fast
        next
          case False
          then have "e \<in> set (snd (devStarted ?t1))"
            using assms \<open>hasDevScript cfg\<close> sk lw inc by (simp add: startDevScript_def devSendKeys_def)
          then have "e \<in> set ?t1 \<or> (\<not> is_fetch e \<and> \<not> is_tmux e)"
            by (rule devStarted_events)
          then show ?thesis using t1 [of e] by fast
        qed
      qed
    qed
  qed
qed

lemma devStarted_prefix: "prefix t (snd (devStarted t))"
  by (simp add: devStarted_def)

lemma devCaught_prefix: "prefix t (snd (devCaught msg t))"
  by (simp add: devCaught_def)

lemma devExitedEarly_prefix: "prefix t (snd (devExitedEarly cfg w code t))"
  by (simp add: devExitedEarly_def devStarted_prefix split: prod.split)

lemma prefix_snoc2: "prefix (t @ xs) r \<Longrightarrow> prefix t r"
  using append_prefixD by blast

lemma devExitCodeFound_prefix: "prefix t (snd (devExitCodeFound cfg w t))"
proof (cases "fileText w (devExitCodePath cfg)")
  case (Inl msg)
  then show ?thesis
    using devCaught_prefix [of "t @ [FileText (devExitCodePath cfg)]" msg]
    by (simp add: devExitCodeFound_def prefix_snoc2)
next
  case (Inr content)
  note ft = this
  let ?t2 = "t @ [FileText (devExitCodePath cfg), RmForce (devExitCodePath cfg)]"
  show ?thesis
  proof (cases "rmForce w (devExitCodePath cfg)")
    case (Inl msg)
    then show ?thesis
      using ft devCaught_prefix [of ?t2 msg] prefix_snoc2 [of t]
      by (simp add: devExitCodeFound_def Let_def)
  next
    case (Inr u)
    note rm = this
    show ?thesis
    proof (cases "parseInt10 (js_trim content)")
      case None
      then show ?thesis using ft rm by (simp add: devExitCodeFound_def Let_def)
    next
      case (Some code)
      then show ?thesis
        using ft rm devExitedEarly_prefix [of ?t2 cfg w code] prefix_snoc2 [of t]
        by (simp add: devExitCodeFound_def Let_def)
    qed
  qed
qed

lemma startDevScript_prefix:
  assumes "hasDevScript cfg"
  shows "prefix [ConsoleLog ''[DEV] Starting dev script...'', devSendKeys cfg] (snd (startDevScript cfg w))"
proof -
  let ?t0 = "[ConsoleLog ''[DEV] Starting dev script...'', devSendKeys cfg]"
  show ?thesis
  proof (cases "sendKeys w (devWindowName cfg)")
    case (Inl msg)
    then show ?thesis using assms devCaught_prefix [of ?t0 msg]
      by (simp add: startDevScript_def devSendKeys_def)
  next
    case (Inr u)
    note sk = this
    show ?thesis
    proof (cases "listWindows w")
      case (Inl msg)
      then show ?thesis
        using assms sk devCaught_prefix [of "?t0 @ [Sleep 2000, listWindowsCmd]" msg] prefix_snoc2 [of ?t0]
        by (simp add: startDevScript_def devSendKeys_def)
    next
      case (Inr windowCheck)
      note lw = this
      let ?t1 = "?t0 @ [Sleep 2000, listWindowsCmd, ConsoleLog ''[DEV] Checking for early exit...'',
                        Sleep 5000, FileExists (devExitCodePath cfg)]"
      show ?thesis
      proof (cases "js_includes windowCheck (devWindowName cfg)")
        case False
        then show ?thesis using assms sk lw
          by (simp add: startDevScript_def devSendKeys_def)
      next
        case True
        then have "snd (startDevScript cfg w) = snd (devExitCodeFound cfg w ?t1)
                 \<or> snd (startDevScript cfg w) = snd (devStarted ?t1)"
          using assms sk lw by (simp add: startDevScript_def devSendKeys_def Let_def)
        then show ?thesis
          using devExitCodeFound_prefix [of ?t1 cfg w] devStarted_prefix [of ?t1] prefix_snoc2 [of ?t0]
          by fastforce
      qed
    qed
  qed
qed

lemma startDevScript_sends_keys:
  "hasDevScript cfg \<Longrightarrow> devSendKeys cfg \<in> set (snd (startDevScript cfg w))"
  using startDevScript_prefix [of cfg w] set_mono_prefix by fastforce

lemma startDevScript_never_silent: "snd (startDevScript cfg w) \<noteq> []"
proof (cases "hasDevScript cfg")
  case True
  then show ?thesis using startDevScript_prefix [of cfg w] by auto
next
  case False
  then show ?thesis by (simp add: startDevScript_def)
qed

lemma reportErrorToConvex_split:
  "\<exists>post. (\<forall>e \<in> set post. is_console e) \<and>
     reportErrorToConvex cfg w m d =
       (if taskRunJwt cfg \<noteq> [] \<and> convexUrl cfg \<noteq> [] \<and> (js_truthy m \<or> js_truthy d)
        then ConsoleLog ''[ORCHESTRATOR] Reporting errors to Convex HTTP action...''
             # Fetch (reportRequest cfg m d) # post
        else post)"
  by (auto simp: reportErrorToConvex_def Let_def split: fetch_outcome.splits sum.splits)

lemma console_not_fetch: "is_console e \<Longrightarrow> \<not> is_fetch e \<and> \<not> is_tmux e"
  by (cases e) auto

lemma filter_fetch_console: "\<forall>e \<in> set t. is_console e \<Longrightarrow> filter is_fetch t = []"
  by (induction t) (auto simp: console_not_fetch)

lemma orchestratorMain_fatal:
  assumes "fst (createWindows cfg w) = Inl msg"
  shows "fst (orchestratorMain cfg w) = 1"
    and "\<exists>pre post. (\<forall>e \<in> set pre. is_console e) \<and> (\<forall>e \<in> set post. is_console e)
           \<and> snd (orchestratorMain cfg w) = pre @ snd (createWindows cfg w) @ post"
proof -
  obtain tc where cw: "createWindows cfg w = (Inl msg, tc)"
    using assms by (cases "createWindows cfg w") auto
  show "fst (orchestratorMain cfg w) = 1"
    by (simp add: orchestratorMain_def cw)
  have "snd (orchestratorMain cfg w) =
      [ConsoleLog ''[ORCHESTRATOR] Starting orchestrator...'',
       ConsoleLog (''[ORCHESTRATOR] CONVEX_URL: '' @ convexUrl cfg),
       ConsoleLog (''[ORCHESTRATOR] TASK_RUN_JWT present: '' @ bool_text (taskRunJwt cfg \<noteq> []))]
      @ snd (createWindows cfg w) @ [ConsoleError (''[ORCHESTRATOR] Fatal error: '' @ msg)]"
    by (simp add: orchestratorMain_def cw)
  then show "\<exists>pre post. (\<forall>e \<in> set pre. is_console e) \<and> (\<forall>e \<in> set post. is_console e)
           \<and> snd (orchestratorMain cfg w) = pre @ snd (createWindows cfg w) @ post"
    by (intro exI [of _ "[ConsoleLog ''[ORCHESTRATOR] Starting orchestrator...'',
       ConsoleLog (''[ORCHESTRATOR] CONVEX_URL: '' @ convexUrl cfg),
       ConsoleLog (''[ORCHESTRATOR] TASK_RUN_JWT present: '' @ bool_text (taskRunJwt cfg \<noteq> []))]"]
        exI [of _ "[ConsoleError (''[ORCHESTRATOR] Fatal error: '' @ msg)]"]) simp
qed

lemma orchestratorMain_ok:
  assumes "fst (createWindows cfg w) = Inr u"
  shows "fst (orchestratorMain cfg w) = (if hasErrorOf cfg w then 1 else 0)"
    and "\<exists>pre lm mid post. (\<forall>e \<in> set pre. is_console e) \<and> is_console lm
           \<and> (\<forall>e \<in> set mid. is_console e) \<and> (\<forall>e \<in> set post. is_console e)
           \<and> snd (orchestratorMain cfg w) =
               pre @ snd (createWindows cfg w) @ snd (runMaintenanceScript cfg w) @ [lm]
               @ snd (startDevScript cfg w) @ mid
               @ (if hasErrorOf cfg w
                  then reportErrorToConvex cfg w (maintenanceErrorOf cfg w) (devErrorOf cfg w)
                  else post)"
proof -
  obtain tc where cw: "createWindows cfg w = (Inr u, tc)"
    using assms by (cases "createWindows cfg w") auto
  obtain m tm where rm: "runMaintenanceScript cfg w = (m, tm)"
    by (cases "runMaintenanceScript cfg w")
  obtain d td where sd: "startDevScript cfg w = (d, td)"
    by (cases "startDevScript cfg w")
  show "fst (orchestratorMain cfg w) = (if hasErrorOf cfg w then 1 else 0)"
    by (simp add: orchestratorMain_def cw rm sd hasErrorOf_def maintenanceErrorOf_def devErrorOf_def Let_def)
  let ?pre = "[ConsoleLog ''[ORCHESTRATOR] Starting orchestrator...'',
       ConsoleLog (''[ORCHESTRATOR] CONVEX_URL: '' @ convexUrl cfg),
       ConsoleLog (''[ORCHESTRATOR] TASK_RUN_JWT present: '' @ bool_text (taskRunJwt cfg \<noteq> []))]"
  let ?lm = "(if js_truthy (error m)
              then ConsoleError (''[ORCHESTRATOR] Maintenance completed with error: '' @ the (error m))
              else ConsoleLog ''[ORCHESTRATOR] Maintenance completed successfully'')"
  let ?mid = "[(if js_truthy d
                then ConsoleError (''[ORCHESTRATOR] Dev script failed: '' @ the d)
                else ConsoleLog ''[ORCHESTRATOR] Dev script started successfully''),
               ConsoleLog (''[ORCHESTRATOR] Checking if should report errors - maintenance: ''
                           @ bool_text (js_truthy (error m)) @ '', dev: '' @ bool_text (js_truthy d))]"
  let ?post = "[ConsoleLog ''[ORCHESTRATOR] No errors to report'',
                ConsoleLog ''[ORCHESTRATOR] Orchestrator completed successfully'']"
  have "snd (orchestratorMain cfg w) =
               ?pre @ snd (createWindows cfg w) @ snd (runMaintenanceScript cfg w) @ [?lm]
               @ snd (startDevScript cfg w) @ ?mid
               @ (if hasErrorOf cfg w
                  then reportErrorToConvex cfg w (maintenanceErrorOf cfg w) (devErrorOf cfg w)
                  else ?post)"
    by (simp add: orchestratorMain_def cw rm sd hasErrorOf_def maintenanceErrorOf_def devErrorOf_def Let_def)
  moreover have "(\<forall>e \<in> set ?pre. is_console e) \<and> is_console ?lm
           \<and> (\<forall>e \<in> set ?mid. is_console e) \<and> (\<forall>e \<in> set ?post. is_console e)"
    by simp
  ultimately show "\<exists>pre lm mid post. (\<forall>e \<in> set pre. is_console e) \<and> is_console lm
           \<and> (\<forall>e \<in> set mid. is_console e) \<and> (\<forall>e \<in> set post. is_console e)
           \<and> snd (orchestratorMain cfg w) =
               pre @ snd (createWindows cfg w) @ snd (runMaintenanceScript cfg w) @ [lm]
               @ snd (startDevScript cfg w) @ mid
               @ (if hasErrorOf cfg w
                  then reportErrorToConvex cfg w (maintenanceErrorOf cfg w) (devErrorOf cfg w)
                  else post)"
    by blast
qed

text \<open>
  C1: once \<open>createWindows\<close> has succeeded, whatever the configuration and whatever the
  world does to the maintenance stage (so for every maintenance result: ok, failed or
  timed out), everything \<open>startDevScript\<close> does comes in the run after everything
  \<open>runMaintenanceScript\<close> did; \<open>startDevScript\<close> does something in every case, and when
  there is a dev script its command is typed into the dev window.
\<close>

theorem C1_dev_after_maintenance:
  assumes "fst (createWindows cfg w) = Inr ()"
  shows "(\<exists>pre mid post. snd (orchestratorMain cfg w)
            = pre @ snd (runMaintenanceScript cfg w) @ mid @ snd (startDevScript cfg w) @ post)
       \<and> snd (startDevScript cfg w) \<noteq> []
       \<and> (hasDevScript cfg \<longrightarrow> devSendKeys cfg \<in> set (snd (startDevScript cfg w)))"
proof -
  obtain pre lm mid post where
    "snd (orchestratorMain cfg w) =
       pre @ snd (createWindows cfg w) @ snd (runMaintenanceScript cfg w) @ [lm]
       @ snd (startDevScript cfg w) @ mid
       @ (if hasErrorOf cfg w
          then reportErrorToConvex cfg w (maintenanceErrorOf cfg w) (devErrorOf cfg w)
          else post)"
    using orchestratorMain_ok(2) [OF assms] by blast
  then have "snd (orchestratorMain cfg w) =
       (pre @ snd (createWindows cfg w)) @ snd (runMaintenanceScript cfg w) @ [lm]
       @ snd (startDevScript cfg w)
       @ (mid @ (if hasErrorOf cfg w
          then reportErrorToConvex cfg w (maintenanceErrorOf cfg w) (devErrorOf cfg w)
          else post))"
    by simp
  then have "\<exists>pre mid post. snd (orchestratorMain cfg w)
            = pre @ snd (runMaintenanceScript cfg w) @ mid @ snd (startDevScript cfg w) @ post"
    by blast
  then show ?thesis
    using startDevScript_never_silent startDevScript_sends_keys by blast
qed

lemma runMaintenanceScript_timeout:
  assumes "hasMaintenanceScript cfg" "sendKeys w (maintenanceWindowName cfg) = Inr ()"
    and "\<forall>k<maxAttempts. \<not> fileExists w (maintenanceExitCodePath cfg) k"
  shows "runMaintenanceScript cfg w =
     (\<lparr> exitCode = 124, error = Some ''Maintenance script timed out after 10 minutes'' \<rparr>,
      [ConsoleLog ''[MAINTENANCE] Starting maintenance script...'', maintenanceSendKeys cfg,
       Sleep 2000, ConsoleLog ''[MAINTENANCE] Waiting for script to complete...'']
      @ concat (replicate maxAttempts [FileExists (maintenanceExitCodePath cfg), Sleep 1000])
      @ [ConsoleError ''[MAINTENANCE] Script timed out after 10 minutes''])"
proof -
  have "waitForExitCode w (maintenanceExitCodePath cfg) 0
        = (maxAttempts, concat (replicate (maxAttempts - 0) [FileExists (maintenanceExitCodePath cfg), Sleep 1000]))"
    using assms(3) by (intro waitForExitCode_timeout) auto
  then show ?thesis using assms(1,2)
    by (simp add: runMaintenanceScript_def maintenanceSendKeys_def)
qed

lemma reportErrorToConvex_no_tmux:
  assumes "e \<in> set (reportErrorToConvex cfg w m d)"
  shows "\<not> is_tmux e"
proof -
  obtain post where "\<forall>e \<in> set post. is_console e"
    "reportErrorToConvex cfg w m d =
       (if taskRunJwt cfg \<noteq> [] \<and> convexUrl cfg \<noteq> [] \<and> (js_truthy m \<or> js_truthy d)
        then ConsoleLog ''[ORCHESTRATOR] Reporting errors to Convex HTTP action...''
             # Fetch (reportRequest cfg m d) # post
        else post)"
    using reportErrorToConvex_split by blast
  then show ?thesis using assms console_not_fetch by (auto split: if_splits)
qed

lemma orchestratorMain_commands:
  assumes "e \<in> set (snd (orchestratorMain cfg w))" "is_tmux e"
  shows "e \<in> orchestratorCommands cfg"
proof (cases "fst (createWindows cfg w)")
  case (Inl msg)
  then obtain pre post where "(\<forall>e \<in> set pre. is_console e)" "(\<forall>e \<in> set post. is_console e)"
    "snd (orchestratorMain cfg w) = pre @ snd (createWindows cfg w) @ post"
    using orchestratorMain_fatal(2) by blast
  then have "e \<in> set (snd (createWindows cfg w))"
    using assms console_not_fetch by auto
  then show ?thesis using createWindows_events assms(2) by blast
next
  case (Inr u)
  then obtain pre lm mid post where c: "(\<forall>e \<in> set pre. is_console e)" "is_console lm"
    "(\<forall>e \<in> set mid. is_console e)" "(\<forall>e \<in> set post. is_console e)"
    and tr: "snd (orchestratorMain cfg w) =
       pre @ snd (createWindows cfg w) @ snd (runMaintenanceScript cfg w) @ [lm]
       @ snd (startDevScript cfg w) @ mid
       @ (if hasErrorOf cfg w
          then reportErrorToConvex cfg w (maintenanceErrorOf cfg w) (devErrorOf cfg w)
          else post)"
    using orchestratorMain_ok(2) by blast
  have "e \<in> set (snd (createWindows cfg w)) \<or> e \<in> set (snd (runMaintenanceScript cfg w))
        \<or> e \<in> set (snd (startDevScript cfg w))"
    using assms c reportErrorToConvex_no_tmux console_not_fetch unfolding tr
    by (auto split: if_splits)
  then show ?thesis
    using createWindows_events [of e cfg w] runMaintenanceScript_events [of e cfg w]
      startDevScript_events [of e cfg w] assms(2)
    by (auto simp: orchestratorCommands_def)
qed

text \<open>
  C2: with a maintenance script, windows created and the command typed, if the exit-code
  file is absent at each of the \<open>maxAttempts\<close> = 600 polls, then
  \<open>runMaintenanceScript\<close> returns exit code 124 with the error
  "Maintenance script timed out after 10 minutes"; all it did was type the command, sleep
  and poll 600 times one second apart, and log. The orchestrator exits with status 1. No
  tmux command of the whole run is anything but has-session, new-window, the two
  commands that start the scripts, and list-windows: nothing kills the remote process.
\<close>

theorem C2_maintenance_timeout:
  assumes "hasMaintenanceScript cfg"
    and "fst (createWindows cfg w) = Inr ()"
    and "sendKeys w (maintenanceWindowName cfg) = Inr ()"
    and "\<forall>k<maxAttempts. \<not> fileExists w (maintenanceExitCodePath cfg) k"
  shows "runMaintenanceScript cfg w =
           (\<lparr> exitCode = 124, error = Some ''Maintenance script timed out after 10 minutes'' \<rparr>,
            [ConsoleLog ''[MAINTENANCE] Starting maintenance script...'', maintenanceSendKeys cfg,
             Sleep 2000, ConsoleLog ''[MAINTENANCE] Waiting for script to complete...'']
            @ concat (replicate maxAttempts [FileExists (maintenanceExitCodePath cfg), Sleep 1000])
            @ [ConsoleError ''[MAINTENANCE] Script timed out after 10 minutes''])
       \<and> maxAttempts = 600
       \<and> fst (orchestratorMain cfg w) = 1
       \<and> (\<forall>e \<in> set (snd (orchestratorMain cfg w)). is_tmux e \<longrightarrow> e \<in> orchestratorCommands cfg)"
proof -
  have run: "runMaintenanceScript cfg w =
           (\<lparr> exitCode = 124, error = Some ''Maintenance script timed out after 10 minutes'' \<rparr>,
            [ConsoleLog ''[MAINTENANCE] Starting maintenance script...'', maintenanceSendKeys cfg,
             Sleep 2000, ConsoleLog ''[MAINTENANCE] Waiting for script to complete...'']
            @ concat (replicate maxAttempts [FileExists (maintenanceExitCodePath cfg), Sleep 1000])
            @ [ConsoleError ''[MAINTENANCE] Script timed out after 10 minutes''])"
    using runMaintenanceScript_timeout [OF assms(1,3,4)] .
  then have "hasErrorOf cfg w"
    by (simp add: hasErrorOf_def maintenanceErrorOf_def js_truthy_def)
  then have "fst (orchestratorMain cfg w) = 1"
    using orchestratorMain_ok(1) [OF assms(2)] by simp
  then show ?thesis using run orchestratorMain_commands by (simp add: maxAttempts_def)
qed

lemma waitForTmuxSession_found_first:
  "hasSession w 0 = Inr 0 \<Longrightarrow>
   waitForTmuxSession w = (Inr (), [hasSessionCmd, ConsoleLog ''[ORCHESTRATOR] tmux session found''])"
  by (simp add: waitForTmuxSession_def waitForTmuxSession_loop.simps [of w 0])

lemma createWindows_first_try:
  "hasSession w 0 = Inr 0 \<Longrightarrow> (\<And>name. newWindow w name = Inr ()) \<Longrightarrow> fst (createWindows cfg w) = Inr ()"
  by (simp add: createWindows_def waitForTmuxSession_found_first createWindow_def)

lemma scenarioA_createWindows: "fst (createWindows scenarioA_cfg scenarioA_world) = Inr ()"
  by (rule createWindows_first_try) (simp_all add: scenarioA_world_simps)

lemma timeout_world_simps:
  "sendKeys timeout_world name = Inr ()"
  "newWindow timeout_world name = Inr ()"
  "hasSession timeout_world i = Inr 0"
  "fileExists timeout_world p i = False"
  by (simp_all add: timeout_world_def scenarioA_world_def)

lemma timeout_createWindows: "fst (createWindows scenarioA_cfg timeout_world) = Inr ()"
  by (rule createWindows_first_try) (simp_all add: timeout_world_simps)

theorem C1_dev_after_maintenance_witness:
  "fst (createWindows scenarioA_cfg scenarioA_world) = Inr ()
   \<and> (\<exists>pre mid post. snd (orchestratorMain scenarioA_cfg scenarioA_world)
       = pre @ snd (runMaintenanceScript scenarioA_cfg scenarioA_world) @ mid
         @ snd (startDevScript scenarioA_cfg scenarioA_world) @ post)
   \<and> devSendKeys scenarioA_cfg \<in> set (snd (startDevScript scenarioA_cfg scenarioA_world))"
  using C1_dev_after_maintenance [of scenarioA_cfg scenarioA_world] scenarioA_createWindows
  by (simp add: scenarioA_cfg_simps)

theorem C2_maintenance_timeout_witness:
  "fst (runMaintenanceScript scenarioA_cfg timeout_world)
     = \<lparr> exitCode = 124, error = Some ''Maintenance script timed out after 10 minutes'' \<rparr>
   \<and> fst (orchestratorMain scenarioA_cfg timeout_world) = 1"
  using C2_maintenance_timeout [of scenarioA_cfg timeout_world] timeout_createWindows
  by (simp add: scenarioA_cfg_simps timeout_world_simps)

lemma waitForTmuxSession_loop_fetch:
  "waitForTmuxSession_loop (w\<lparr>fetch := f\<rparr>) i = waitForTmuxSession_loop w i"
proof (induction w i rule: waitForTmuxSession_loop.induct)
  case (1 w i)
  then show ?case
    by (simp add: waitForTmuxSession_loop.simps [of "w\<lparr>fetch := f\<rparr>" i]
        waitForTmuxSession_loop.simps [of w i])
qed

lemma waitForExitCode_fetch:
  "waitForExitCode (w\<lparr>fetch := f\<rparr>) p a = waitForExitCode w p a"
proof (induction w p a rule: waitForExitCode.induct)
  case (1 w path attempts)
  then show ?case
    by (simp add: waitForExitCode.simps [of "w\<lparr>fetch := f\<rparr>" path attempts]
        waitForExitCode.simps [of w path attempts])
qed

lemma waitForTmuxSession_fetch: "waitForTmuxSession (w\<lparr>fetch := f\<rparr>) = waitForTmuxSession w"
  by (simp add: waitForTmuxSession_def waitForTmuxSession_loop_fetch
      cong: sum.case_cong prod.case_cong bool.case_cong)

lemma createWindow_fetch: "createWindow (w\<lparr>fetch := f\<rparr>) name = createWindow w name"
  by (simp add: createWindow_def)

lemma createWindows_fetch: "createWindows cfg (w\<lparr>fetch := f\<rparr>) = createWindows cfg w"
  by (simp add: createWindows_def waitForTmuxSession_fetch createWindow_fetch
      cong: sum.case_cong prod.case_cong if_cong)

lemma readErrorLog_fetch: "readErrorLog (w\<lparr>fetch := f\<rparr>) tag p = readErrorLog w tag p"
  by (simp add: readErrorLog_def cong: sum.case_cong)

lemma maintenanceCompleted_fetch:
  "maintenanceCompleted cfg (w\<lparr>fetch := f\<rparr>) code t = maintenanceCompleted cfg w code t"
  by (simp add: maintenanceCompleted_def readErrorLog_fetch Let_def cong: prod.case_cong if_cong)

lemma maintenanceExitCodeFound_fetch:
  "maintenanceExitCodeFound cfg (w\<lparr>fetch := f\<rparr>) t = maintenanceExitCodeFound cfg w t"
  by (simp add: maintenanceExitCodeFound_def maintenanceCompleted_fetch Let_def
      cong: sum.case_cong option.case_cong)

lemma runMaintenanceScript_fetch:
  "runMaintenanceScript cfg (w\<lparr>fetch := f\<rparr>) = runMaintenanceScript cfg w"
  by (simp add: runMaintenanceScript_def waitForExitCode_fetch maintenanceExitCodeFound_fetch Let_def
      cong: sum.case_cong prod.case_cong if_cong)

lemma devExitedEarly_fetch:
  "devExitedEarly cfg (w\<lparr>fetch := f\<rparr>) code t = devExitedEarly cfg w code t"
  by (simp add: devExitedEarly_def readErrorLog_fetch cong: prod.case_cong if_cong)

lemma devExitCodeFound_fetch:
  "devExitCodeFound cfg (w\<lparr>fetch := f\<rparr>) t = devExitCodeFound cfg w t"
  by (simp add: devExitCodeFound_def devExitedEarly_fetch Let_def
      cong: sum.case_cong option.case_cong)

lemma startDevScript_fetch:
  "startDevScript cfg (w\<lparr>fetch := f\<rparr>) = startDevScript cfg w"
  by (simp add: startDevScript_def devExitCodeFound_fetch Let_def cong: sum.case_cong if_cong)

lemma orchestratorMain_exit_fetch:
  "fst (orchestratorMain cfg (w\<lparr>fetch := f\<rparr>)) = fst (orchestratorMain cfg w)"
proof (cases "fst (createWindows cfg w)")
  case (Inl msg)
  then show ?thesis
    using orchestratorMain_fatal(1) [of cfg w msg] orchestratorMain_fatal(1) [of cfg "w\<lparr>fetch := f\<rparr>" msg]
    by (simp add: createWindows_fetch)
next
  case (Inr u)
  then show ?thesis
    using orchestratorMain_ok(1) [of cfg w u] orchestratorMain_ok(1) [of cfg "w\<lparr>fetch := f\<rparr>" u]
    by (simp add: createWindows_fetch hasErrorOf_def maintenanceErrorOf_def devErrorOf_def
        runMaintenanceScript_fetch startDevScript_fetch)
qed

lemma orchestratorMain_fetches:
  "\<exists>pre post. (\<forall>e \<in> set pre. \<not> is_fetch e) \<and> (\<forall>e \<in> set post. is_console e) \<and>
     snd (orchestratorMain cfg w) =
       (if isl (fst (createWindows cfg w)) \<or> \<not> hasErrorOf cfg w
           \<or> taskRunJwt cfg = [] \<or> convexUrl cfg = []
        then pre @ post
        else pre @ Fetch (reportRequest cfg (maintenanceErrorOf cfg w) (devErrorOf cfg w)) # post)"
proof (cases "fst (createWindows cfg w)")
  case (Inl msg)
  then obtain pre post where p: "\<forall>e \<in> set pre. is_console e" "\<forall>e \<in> set post. is_console e"
    "snd (orchestratorMain cfg w) = pre @ snd (createWindows cfg w) @ post"
    using orchestratorMain_fatal(2) [of cfg w msg] by auto
  have "\<forall>e \<in> set (pre @ snd (createWindows cfg w)). \<not> is_fetch e"
    using p(1) console_not_fetch createWindows_events [of _ cfg w] by auto
  then show ?thesis using p Inl
    by (intro exI [of _ "pre @ snd (createWindows cfg w)"] exI [of _ post]) simp
next
  case (Inr u)
  then obtain pre lm mid post where c: "\<forall>e \<in> set pre. is_console e" "is_console lm"
    "\<forall>e \<in> set mid. is_console e" "\<forall>e \<in> set post. is_console e"
    and tr: "snd (orchestratorMain cfg w) =
       pre @ snd (createWindows cfg w) @ snd (runMaintenanceScript cfg w) @ [lm]
       @ snd (startDevScript cfg w) @ mid
       @ (if hasErrorOf cfg w
          then reportErrorToConvex cfg w (maintenanceErrorOf cfg w) (devErrorOf cfg w)
          else post)"
    using orchestratorMain_ok(2) [of cfg w u] by auto
  define front where "front = pre @ snd (createWindows cfg w) @ snd (runMaintenanceScript cfg w) @ [lm]
       @ snd (startDevScript cfg w) @ mid"
  have front: "\<forall>e \<in> set front. \<not> is_fetch e"
    using c(1,2,3) console_not_fetch createWindows_events [of _ cfg w]
      runMaintenanceScript_events [of _ cfg w] startDevScript_events [of _ cfg w]
    unfolding front_def by auto
  have tr': "snd (orchestratorMain cfg w) =
       front @ (if hasErrorOf cfg w
          then reportErrorToConvex cfg w (maintenanceErrorOf cfg w) (devErrorOf cfg w)
          else post)"
    using tr unfolding front_def by simp
  obtain rpost where r: "\<forall>e \<in> set rpost. is_console e"
    "reportErrorToConvex cfg w (maintenanceErrorOf cfg w) (devErrorOf cfg w) =
       (if taskRunJwt cfg \<noteq> [] \<and> convexUrl cfg \<noteq> []
           \<and> (js_truthy (maintenanceErrorOf cfg w) \<or> js_truthy (devErrorOf cfg w))
        then ConsoleLog ''[ORCHESTRATOR] Reporting errors to Convex HTTP action...''
             # Fetch (reportRequest cfg (maintenanceErrorOf cfg w) (devErrorOf cfg w)) # rpost
        else rpost)"
    using reportErrorToConvex_split [of cfg w "maintenanceErrorOf cfg w" "devErrorOf cfg w"] by auto
  show ?thesis
  proof (cases "hasErrorOf cfg w")
    case False
    then show ?thesis using tr' front c(4) Inr
      by (intro exI [of _ front] exI [of _ post]) simp
  next
    case True
    show ?thesis
    proof (cases "taskRunJwt cfg = [] \<or> convexUrl cfg = []")
      case cfgmissing: True
      then have "snd (orchestratorMain cfg w) = front @ rpost"
        using tr' r(2) True by auto
      then show ?thesis using front r(1) cfgmissing
        by (intro exI [of _ front] exI [of _ rpost]) simp
    next
      case False
      define h2 where "h2 = front @ [ConsoleLog ''[ORCHESTRATOR] Reporting errors to Convex HTTP action...'']"
      have "snd (orchestratorMain cfg w)
            = h2 @ Fetch (reportRequest cfg (maintenanceErrorOf cfg w) (devErrorOf cfg w)) # rpost"
        using tr' r(2) True False unfolding h2_def by (simp add: hasErrorOf_def)
      moreover have "\<forall>e \<in> set h2. \<not> is_fetch e" using front unfolding h2_def by simp
      ultimately show ?thesis using r(1) True False Inr
        by (intro exI [of _ h2] exI [of _ rpost]) simp
    qed
  qed
qed

lemma filter_fetch_quiet: "\<forall>e \<in> set t. \<not> is_fetch e \<Longrightarrow> filter is_fetch t = []"
  by (induction t) auto

lemma console_quiet: "\<forall>e \<in> set t. is_console e \<Longrightarrow> \<forall>e \<in> set t. \<not> is_fetch e"
  using console_not_fetch by blast

lemma reportRequest_fields:
  "http_method (reportRequest cfg m d) = ''POST''"
  "map_of (headers (reportRequest cfg m d)) ''Authorization'' = Some (''Bearer '' @ taskRunJwt cfg)"
  "map_of (body (reportRequest cfg m d)) ''maintenanceError'' = (if js_truthy m then m else None)"
  "map_of (body (reportRequest cfg m d)) ''devError'' = (if js_truthy d then d else None)"
  "fst ` set (body (reportRequest cfg m d)) \<subseteq> {''maintenanceError'', ''devError''}"
  by (auto simp: reportRequest_def js_truthy_def split: option.splits)

text \<open>
  C5: a run of the orchestrator calls \<open>fetch\<close> at most once. If it does, at least one
  of the two stage errors is set, the request is a POST whose Authorization header is
  "Bearer " followed by the token, and whose body has the field \<open>maintenanceError\<close>
  exactly when that error is set, the field \<open>devError\<close> exactly when that error is set,
  and no other field; after the call the run only writes console lines, so nothing is
  sent again. With the URL or the token missing nothing is sent. Whatever \<open>fetch\<close>
  does (throw, answer with any status), the exit status of the run is the same.
\<close>

theorem C5_report_best_effort:
  "length (filter is_fetch (snd (orchestratorMain cfg w))) \<le> 1
   \<and> (Fetch req \<in> set (snd (orchestratorMain cfg w)) \<longrightarrow>
        (js_truthy (maintenanceErrorOf cfg w) \<or> js_truthy (devErrorOf cfg w))
        \<and> req = reportRequest cfg (maintenanceErrorOf cfg w) (devErrorOf cfg w)
        \<and> http_method req = ''POST''
        \<and> map_of (headers req) ''Authorization'' = Some (''Bearer '' @ taskRunJwt cfg)
        \<and> map_of (body req) ''maintenanceError''
            = (if js_truthy (maintenanceErrorOf cfg w) then maintenanceErrorOf cfg w else None)
        \<and> map_of (body req) ''devError''
            = (if js_truthy (devErrorOf cfg w) then devErrorOf cfg w else None)
        \<and> fst ` set (body req) \<subseteq> {''maintenanceError'', ''devError''}
        \<and> (\<exists>pre post. snd (orchestratorMain cfg w) = pre @ Fetch req # post
               \<and> (\<forall>e \<in> set post. is_console e)))
   \<and> (taskRunJwt cfg = [] \<or> convexUrl cfg = [] \<longrightarrow>
        filter is_fetch (snd (orchestratorMain cfg w)) = [])
   \<and> fst (orchestratorMain cfg (w\<lparr>fetch := f\<rparr>)) = fst (orchestratorMain cfg w)"
proof -
  let ?R = "reportRequest cfg (maintenanceErrorOf cfg w) (devErrorOf cfg w)"
  let ?quiet = "isl (fst (createWindows cfg w)) \<or> \<not> hasErrorOf cfg w
           \<or> taskRunJwt cfg = [] \<or> convexUrl cfg = []"
  obtain pre post where pre: "\<forall>e \<in> set pre. \<not> is_fetch e" and post: "\<forall>e \<in> set post. is_console e"
    and tr: "snd (orchestratorMain cfg w) = (if ?quiet then pre @ post else pre @ Fetch ?R # post)"
    using orchestratorMain_fetches [of cfg w] by auto
  have fpre: "filter is_fetch pre = []" using pre by (rule filter_fetch_quiet)
  have fpost: "filter is_fetch post = []" using console_quiet [OF post] by (rule filter_fetch_quiet)
  have filt: "filter is_fetch (snd (orchestratorMain cfg w)) = (if ?quiet then [] else [Fetch ?R])"
    using fpre fpost by (simp add: tr)
  have once: "length (filter is_fetch (snd (orchestratorMain cfg w))) \<le> 1"
    by (simp add: filt)
  have missing: "taskRunJwt cfg = [] \<or> convexUrl cfg = [] \<longrightarrow>
        filter is_fetch (snd (orchestratorMain cfg w)) = []"
    by (simp add: filt)
  have sent: "(js_truthy (maintenanceErrorOf cfg w) \<or> js_truthy (devErrorOf cfg w))
        \<and> req = ?R
        \<and> (\<exists>pre post. snd (orchestratorMain cfg w) = pre @ Fetch req # post
               \<and> (\<forall>e \<in> set post. is_console e))"
    if mem: "Fetch req \<in> set (snd (orchestratorMain cfg w))"
  proof -
    have "Fetch req \<in> set (filter is_fetch (snd (orchestratorMain cfg w)))"
      using mem by simp
    then have nq: "\<not> ?quiet" and eq: "req = ?R"
      unfolding filt by (auto split: if_splits)
    have "snd (orchestratorMain cfg w) = pre @ Fetch req # post"
      using tr nq eq by simp
    then show ?thesis using nq eq post unfolding hasErrorOf_def by blast
  qed
  have second: "Fetch req \<in> set (snd (orchestratorMain cfg w)) \<longrightarrow>
        (js_truthy (maintenanceErrorOf cfg w) \<or> js_truthy (devErrorOf cfg w))
        \<and> req = reportRequest cfg (maintenanceErrorOf cfg w) (devErrorOf cfg w)
        \<and> http_method req = ''POST''
        \<and> map_of (headers req) ''Authorization'' = Some (''Bearer '' @ taskRunJwt cfg)
        \<and> map_of (body req) ''maintenanceError''
            = (if js_truthy (maintenanceErrorOf cfg w) then maintenanceErrorOf cfg w else None)
        \<and> map_of (body req) ''devError''
            = (if js_truthy (devErrorOf cfg w) then devErrorOf cfg w else None)
        \<and> fst ` set (body req) \<subseteq> {''maintenanceError'', ''devError''}
        \<and> (\<exists>pre post. snd (orchestratorMain cfg w) = pre @ Fetch req # post
               \<and> (\<forall>e \<in> set post. is_console e))"
  proof (rule impI)
    assume mem: "Fetch req \<in> set (snd (orchestratorMain cfg w))"
    have t: "js_truthy (maintenanceErrorOf cfg w) \<or> js_truthy (devErrorOf cfg w)"
      by (rule conjunct1 [OF sent [OF mem]])
    have eq: "req = ?R"
      by (rule conjunct1 [OF conjunct2 [OF sent [OF mem]]])
    have split: "\<exists>pre post. snd (orchestratorMain cfg w) = pre @ Fetch req # post
               \<and> (\<forall>e \<in> set post. is_console e)"
      by (rule conjunct2 [OF conjunct2 [OF sent [OF mem]]])
    show "(js_truthy (maintenanceErrorOf cfg w) \<or> js_truthy (devErrorOf cfg w))
        \<and> req = reportRequest cfg (maintenanceErrorOf cfg w) (devErrorOf cfg w)
        \<and> http_method req = ''POST''
        \<and> map_of (headers req) ''Authorization'' = Some (''Bearer '' @ taskRunJwt cfg)
        \<and> map_of (body req) ''maintenanceError''
            = (if js_truthy (maintenanceErrorOf cfg w) then maintenanceErrorOf cfg w else None)
        \<and> map_of (body req) ''devError''
            = (if js_truthy (devErrorOf cfg w) then devErrorOf cfg w else None)
        \<and> fst ` set (body req) \<subseteq> {''maintenanceError'', ''devError''}
        \<and> (\<exists>pre post. snd (orchestratorMain cfg w) = pre @ Fetch req # post
               \<and> (\<forall>e \<in> set post. is_console e))"
      using t split reportRequest_fields [of cfg "maintenanceErrorOf cfg w" "devErrorOf cfg w"]
      unfolding eq by (intro conjI) (assumption | rule refl)+
  qed
  have exitf: "fst (orchestratorMain cfg (w\<lparr>fetch := f\<rparr>)) = fst (orchestratorMain cfg w)"
    by (rule orchestratorMain_exit_fetch)
  from once second missing exitf show ?thesis by (intro conjI)
qed

lemma scenarioA_wait:
  "waitForExitCode scenarioA_world ''/var/tmp/cmux-scripts/maintenance_1_4fzyo82m.exit-code'' 0
   = (1, [FileExists ''/var/tmp/cmux-scripts/maintenance_1_4fzyo82m.exit-code'', Sleep 1000,
          FileExists ''/var/tmp/cmux-scripts/maintenance_1_4fzyo82m.exit-code''])"
  by (simp add: waitForExitCode.simps [of _ _ 0] waitForExitCode.simps [of _ _ "Suc 0"]
      scenarioA_world_simps maxAttempts_def)

lemma scenarioA_maintenance:
  "fst (runMaintenanceScript scenarioA_cfg scenarioA_world) = \<lparr> exitCode = 3, error = Some ''+ exit 3'' \<rparr>"
  by (simp add: runMaintenanceScript_def scenarioA_cfg_simps scenarioA_world_simps scenarioA_wait
      maxAttempts_def maintenanceExitCodeFound_def parse3 maintenanceCompleted_def readErrorLog_def
      trim_log js_slice_last_def Let_def)

lemma scenarioA_dev: "fst (startDevScript scenarioA_cfg scenarioA_world) = None"
  by (simp add: startDevScript_def scenarioA_cfg_simps scenarioA_world_simps devStarted_def Let_def)

lemma scenarioA_errors:
  "maintenanceErrorOf scenarioA_cfg scenarioA_world = Some ''+ exit 3''"
  "devErrorOf scenarioA_cfg scenarioA_world = None"
  "hasErrorOf scenarioA_cfg scenarioA_world"
  by (simp_all add: maintenanceErrorOf_def devErrorOf_def hasErrorOf_def scenarioA_maintenance
      scenarioA_dev js_truthy_def)

lemma scenarioA_reports:
  "Fetch (reportRequest scenarioA_cfg (Some ''+ exit 3'') None)
     \<in> set (snd (orchestratorMain scenarioA_cfg scenarioA_world))"
  using orchestratorMain_fetches [of scenarioA_cfg scenarioA_world]
  by (auto simp: scenarioA_errors scenarioA_createWindows scenarioA_cfg_simps)

theorem C5_report_best_effort_witness:
  "Fetch (reportRequest scenarioA_cfg (Some ''+ exit 3'') None)
     \<in> set (snd (orchestratorMain scenarioA_cfg scenarioA_world))
   \<and> map_of (body (reportRequest scenarioA_cfg (Some ''+ exit 3'') None)) ''maintenanceError''
       = Some ''+ exit 3''
   \<and> map_of (body (reportRequest scenarioA_cfg (Some ''+ exit 3'') None)) ''devError'' = None
   \<and> map_of (headers (reportRequest scenarioA_cfg (Some ''+ exit 3'') None)) ''Authorization''
       = Some ''Bearer jwt''
   \<and> fst (orchestratorMain scenarioA_cfg (scenarioA_world\<lparr>fetch := (\<lambda>req. FetchThrows ''offline'')\<rparr>))
       = fst (orchestratorMain scenarioA_cfg scenarioA_world)"
  using C5_report_best_effort [where req = "reportRequest scenarioA_cfg (Some ''+ exit 3'') None"
      and cfg = scenarioA_cfg and w = scenarioA_world and f = "\<lambda>req. FetchThrows ''offline''"]
    scenarioA_reports
  by (simp add: scenarioA_errors scenarioA_cfg_simps js_truthy_def)

lemma js_trim_empty_iff: "js_trim t = [] \<longleftrightarrow> (\<forall>c \<in> set t. is_js_ws c)"
proof
  assume "js_trim t = []"
  then have "dropWhile is_js_ws (rev (dropWhile is_js_ws t)) = []" by (simp add: js_trim_def)
  then have "\<forall>c \<in> set (dropWhile is_js_ws t). is_js_ws c" by (simp add: dropWhile_eq_Nil_conv)
  moreover have "\<forall>c \<in> set (takeWhile is_js_ws t). is_js_ws c" by (auto dest: set_takeWhileD)
  ultimately show "\<forall>c \<in> set t. is_js_ws c"
    by (metis Un_iff set_append takeWhile_dropWhile_id)
next
  assume "\<forall>c \<in> set t. is_js_ws c"
  then have d: "dropWhile is_js_ws t = []" by (induction t) auto
  show "js_trim t = []" unfolding js_trim_def d by simp
qed

lemma hasScript_iff: "hasScript s \<longleftrightarrow> \<not> blankText s"
proof (cases s)
  case None
  then show ?thesis by (simp add: hasScript_def blankText_def)
next
  case (Some t)
  have "t = [] \<Longrightarrow> js_trim t = []" by (simp add: js_trim_def)
  then show ?thesis using Some js_trim_empty_iff [of t]
    by (auto simp: hasScript_def blankText_def)
qed

lemma js_includes_sublist: "js_includes s sub \<longleftrightarrow> sublist sub s"
  by (induction s) (auto simp: sublist_Cons_right)

lemma sublist_dropWhile:
  assumes "\<not> P a"
  shows "sublist (a # r) (dropWhile P s) \<longleftrightarrow> sublist (a # r) s"
proof
  assume "sublist (a # r) (dropWhile P s)"
  then obtain ps ss where "dropWhile P s = ps @ (a # r) @ ss" by (auto simp: sublist_def)
  then have "s = (takeWhile P s @ ps) @ (a # r) @ ss"
    using takeWhile_dropWhile_id [of P s] by simp
  then show "sublist (a # r) s" unfolding sublist_def by blast
next
  assume "sublist (a # r) s"
  then obtain ps ss where s: "s = ps @ a # (r @ ss)" by (auto simp: sublist_def)
  have "dropWhile P s = dropWhile P ps @ a # (r @ ss)"
    unfolding s using assms by (rule dropWhile_append3)
  then have "dropWhile P s = dropWhile P ps @ (a # r) @ ss" by simp
  then show "sublist (a # r) (dropWhile P s)" unfolding sublist_def by blast
qed

lemma sublist_trim:
  assumes "sub \<noteq> []" "\<not> is_js_ws (hd sub)" "\<not> is_js_ws (last sub)"
  shows "sublist sub (js_trim s) \<longleftrightarrow> sublist sub s"
proof -
  obtain a r where sub: "sub = a # r" using assms(1) by (cases sub) auto
  obtain b q where rsub: "rev sub = b # q" using assms(1) by (cases "rev sub") auto
  have b: "\<not> is_js_ws b" using assms(3) rsub assms(1) by (simp add: last_rev [symmetric] hd_rev)
  have "sublist sub (js_trim s) \<longleftrightarrow> sublist (rev sub) (dropWhile is_js_ws (rev (dropWhile is_js_ws s)))"
    unfolding js_trim_def using sublist_rev [of "rev sub"] by simp
  also have "\<dots> \<longleftrightarrow> sublist (rev sub) (rev (dropWhile is_js_ws s))"
    unfolding rsub using b by (rule sublist_dropWhile)
  also have "\<dots> \<longleftrightarrow> sublist sub (dropWhile is_js_ws s)" by (simp add: sublist_rev)
  also have "\<dots> \<longleftrightarrow> sublist sub s"
    unfolding sub using assms(2) sub by (intro sublist_dropWhile) simp
  finally show ?thesis .
qed

lemma js_includes_trim_marker: "js_includes (js_trim s) START_MARKER \<longleftrightarrow> js_includes s START_MARKER"
  unfolding js_includes_sublist
  by (rule sublist_trim) (simp_all add: START_MARKER_def is_js_ws_def)

text \<open>
  C3: when the maintenance text and the dev text are both absent or made of white space
  only, \<open>runMaintenanceAndDevScripts\<close> returns normally having written one console
  line and nothing else, whatever the remote side would have answered: \<open>instance.exec\<close>
  is not called, so no file is written, no window is created and no HTTP call is made.
\<close>

theorem C3_blank_scripts_noop:
  assumes "blankText (maintenanceScript args)" and "blankText (devScript args)"
  shows "runMaintenanceAndDevScripts args now rnd exec_outcome
           = (Inr (), [ConsoleLog ''[runMaintenanceAndDevScripts] No maintenance or dev scripts provided; skipping start''])
       \<and> (\<forall>e \<in> set (snd (runMaintenanceAndDevScripts args now rnd exec_outcome)). is_console e)"
  using assms by (simp add: runMaintenanceAndDevScripts_def hasScript_iff)

theorem C3_blank_scripts_noop_witness:
  "blankText (maintenanceScript blank_args) \<and> blankText (devScript blank_args)
   \<and> snd (runMaintenanceAndDevScripts blank_args 1 ''0.4fzyo82mvyr'' (Inl ''unreachable''))
       = [ConsoleLog ''[runMaintenanceAndDevScripts] No maintenance or dev scripts provided; skipping start'']"
  using C3_blank_scripts_noop [of blank_args 1 "''0.4fzyo82mvyr''" "Inl ''unreachable''"]
  by (simp add: blank_args_def blankText_def is_js_ws_def)

lemma marker_not_in_empty: "\<not> js_includes [] START_MARKER"
  by (simp add: START_MARKER_def)

text \<open>
  C10: when there is a script to run, \<open>runMaintenanceAndDevScripts\<close> calls
  \<open>instance.exec\<close> once, and it throws exactly when the launch is not confirmed: when
  the remote call itself throws, when the command exits with a non-zero status, or when
  its standard output does not contain the marker
  "[ORCHESTRATOR] Started successfully in background (PID:".
\<close>

theorem C10_launch_failure_throws:
  assumes "\<not> blankText (maintenanceScript args) \<or> \<not> blankText (devScript args)"
  shows "(isl (fst (runMaintenanceAndDevScripts args now rnd exec_outcome))
            \<longleftrightarrow> \<not> launchConfirmed exec_outcome)
       \<and> (\<exists>line. is_console line
             \<and> snd (runMaintenanceAndDevScripts args now rnd exec_outcome)
                 = [InstanceExec (setupAndRunCommand args (mkRunId now rnd)), line])"
proof -
  have has: "\<not> (\<not> hasScript (maintenanceScript args) \<and> \<not> hasScript (devScript args))"
    using assms by (simp add: hasScript_iff)
  show ?thesis
  proof (cases exec_outcome)
    case (Inl msg)
    then show ?thesis using has
      by (simp add: runMaintenanceAndDevScripts_def launchConfirmed_def Let_def)
  next
    case (Inr result)
    have out: "js_includes (case stdout result of None \<Rightarrow> [] | Some s \<Rightarrow> js_trim s) START_MARKER
               \<longleftrightarrow> js_includes (case stdout result of None \<Rightarrow> [] | Some s \<Rightarrow> s) START_MARKER"
      by (cases "stdout result") (simp_all add: js_includes_trim_marker)
    show ?thesis using has Inr out
      by (simp add: runMaintenanceAndDevScripts_def launchConfirmed_def Let_def)
  qed
qed

lemma scenarioA_not_blank: "\<not> blankText (maintenanceScript scenarioA_args)"
  by (simp add: scenarioA_args_def blankText_def is_js_ws_def)

lemma launch_ok_confirmed: "launchConfirmed (Inr launch_ok)"
  by (simp add: launchConfirmed_def launch_ok_def START_MARKER_def)

lemma launch_unconfirmed_not: "\<not> launchConfirmed (Inr launch_unconfirmed)"
  by (simp add: launchConfirmed_def launch_unconfirmed_def START_MARKER_def)

theorem C10_launch_failure_throws_witness:
  "\<not> isl (fst (runMaintenanceAndDevScripts scenarioA_args 1 ''0.4fzyo82mvyr'' (Inr launch_ok)))
   \<and> isl (fst (runMaintenanceAndDevScripts scenarioA_args 1 ''0.4fzyo82mvyr'' (Inr launch_unconfirmed)))"
  using C10_launch_failure_throws [of scenarioA_args 1 "''0.4fzyo82mvyr''" "Inr launch_ok"]
    C10_launch_failure_throws [of scenarioA_args 1 "''0.4fzyo82mvyr''" "Inr launch_unconfirmed"]
    scenarioA_not_blank launch_ok_confirmed launch_unconfirmed_not
  by simp

lemma grows_refl [simp]: "grows s s"
  by (simp add: grows_def)

lemma grows_trans: "grows a b \<Longrightarrow> grows b c \<Longrightarrow> grows a c"
  unfolding grows_def by (rule prefix_order.trans)

lemma since_mono: "grows a b \<Longrightarrow> grows b c \<Longrightarrow> set (since b c) \<subseteq> set (since a c)"
proof -
  assume "grows a b" "grows b c"
  then obtain x y where "history b = history a @ x" "history c = history b @ y"
    unfolding grows_def prefix_def by blast
  then show ?thesis by (simp add: since_def)
qed

section \<open>Properties of the serve-web supervisor\<close>

lemma js_truthy_None [simp]: "\<not> js_truthy None"
  by (simp add: js_truthy_def)

lemma emit_simps [simp]:
  "currentServeWebBaseUrl (emit e s) = currentServeWebBaseUrl s"
  "currentServeWebSocketPath (emit e s) = currentServeWebSocketPath s"
  "children (emit e s) = children s"
  "files (emit e s) = files s"
  "clock (emit e s) = clock s"
  "history (emit e s) = history s @ [(e, currentServeWebBaseUrl s, currentServeWebSocketPath s)]"
  by (simp_all add: emit_def)

lemma grows_emit [simp]: "grows s (emit e s)"
  by (simp add: grows_def)

lemma onError_simps [simp]:
  "currentServeWebBaseUrl (onError err s) = currentServeWebBaseUrl s"
  "currentServeWebSocketPath (onError err s) = currentServeWebSocketPath s"
  "children (onError err s) = children s"
  "files (onError err s) = files s"
  "clock (onError err s) = clock s"
  "grows s (onError err s)"
  by (simp_all add: onError_def)

lemma onExit_simps [simp]:
  "currentServeWebSocketPath (onExit code signal s) = None"
  "\<not> js_truthy (currentServeWebBaseUrl (onExit code signal s))"
  "children (onExit code signal s) = children s"
  "files (onExit code signal s) = files s"
  "clock (onExit code signal s) = clock s"
  by (simp_all add: onExit_def Let_def)

lemma onExit_clears_url:
  "currentServeWebBaseUrl s \<noteq> Some [] \<Longrightarrow> currentServeWebBaseUrl (onExit code signal s) = None"
  by (cases "currentServeWebBaseUrl s") (simp_all add: onExit_def Let_def js_truthy_def)

lemma grows_onExit [simp]: "grows s (onExit code signal s)"
  by (simp add: onExit_def Let_def grows_def)

lemma since_emit [simp]:
  "since s (emit e s') = since s s' @ [(e, currentServeWebBaseUrl s', currentServeWebSocketPath s')]"
  if "grows s s'"
  using that by (auto simp: since_def grows_def prefix_def)

lemma advance_clock [simp]: "clock (advance env ref path dt s) = clock s + dt"
  by (simp add: advance_def Let_def)

lemma advance_grows [simp]: "grows s (advance env ref path dt s)"
  by (auto simp: advance_def Let_def grows_def onExit_def onError_def emit_def split: option.splits)

lemma advance_since_loggers:
  "e \<in> set (since s (advance env ref path dt s)) \<Longrightarrow> is_logger (fst e)"
  by (auto simp: advance_def Let_def since_def onExit_def onError_def emit_def split: option.splits if_splits)

lemma advance_files:
  "files (advance env ref path dt s) =
     (case socketCreatedAt env of
        None \<Rightarrow> files s
      | Some t \<Rightarrow> if clock s < t \<and> t \<le> clock s + dt then insert path (files s) else files s)"
  by (auto simp: advance_def Let_def split: option.splits)

lemma advance_killed [simp]: "killed (children (advance env ref path dt s) r) = killed (children s r)"
  by (auto simp: advance_def Let_def split: option.splits)

lemma unlinkFile_simps [simp]:
  "currentServeWebBaseUrl (snd (unlinkFile env path s)) = currentServeWebBaseUrl s"
  "currentServeWebSocketPath (snd (unlinkFile env path s)) = currentServeWebSocketPath s"
  "children (snd (unlinkFile env path s)) = children s"
  "clock (snd (unlinkFile env path s)) = clock s"
  "history (snd (unlinkFile env path s))
     = history s @ [(Unlink path, currentServeWebBaseUrl s, currentServeWebSocketPath s)]"
  by (simp_all add: unlinkFile_def Let_def split: option.splits)

lemma unlinkFile_files:
  "files (snd (unlinkFile env path s)) =
     (if unlinkError env path = None then files s - {path} else files s)"
  by (auto simp: unlinkFile_def Let_def split: option.splits)

lemma unlinkFile_result:
  "fst (unlinkFile env path s) =
     (if path \<in> files s then (case unlinkError env path of None \<Rightarrow> Inr () | Some code \<Rightarrow> Inl code)
      else Inl ''ENOENT'')"
  by (simp add: unlinkFile_def Let_def split: option.splits)

lemma childKill_simps [simp]:
  "currentServeWebBaseUrl (snd (childKill env ref s)) = currentServeWebBaseUrl s"
  "currentServeWebSocketPath (snd (childKill env ref s)) = currentServeWebSocketPath s"
  "files (snd (childKill env ref s)) = files s"
  "clock (snd (childKill env ref s)) = clock s"
  "history (snd (childKill env ref s))
     = history s @ [(Kill ref, currentServeWebBaseUrl s, currentServeWebSocketPath s)]"
  by (simp_all add: childKill_def Let_def split: kill_outcome.splits)

lemma childKill_children:
  "children (snd (childKill env ref s)) =
     (if killOutcome env ref = KillDelivered
      then (children s)(ref := (children s ref)\<lparr>killed := True\<rparr>)
      else children s)"
  by (simp add: childKill_def Let_def split: kill_outcome.splits)

lemma logger_not_cleanup: "is_logger e \<Longrightarrow> \<not> is_cleanup e"
  by (cases e) auto

lemma since_append: "grows a b \<Longrightarrow> grows b c \<Longrightarrow> since a c = since a b @ since b c"
proof -
  assume "grows a b" "grows b c"
  then obtain x y where "history b = history a @ x" "history c = history b @ y"
    unfolding grows_def prefix_def by blast
  then show ?thesis by (simp add: since_def)
qed

lemma since_self [simp]: "since s s = []"
  by (simp add: since_def)

lemma waitForSocket_step:
  "clock s < deadline \<Longrightarrow> accessFault env (clock s) = None \<Longrightarrow> path \<notin> files s \<Longrightarrow>
   waitForSocket env ref path deadline s =
     waitForSocket env ref path deadline
       (advance env ref path (100 + latency env (clock s)) (emit (Timer 100) (emit (Access path) s)))"
  by (subst waitForSocket.simps) simp

lemma waitForSocket_stop:
  "\<not> (clock s < deadline \<and> accessFault env (clock s) = None \<and> path \<notin> files s) \<Longrightarrow>
   isl (fst (waitForSocket env ref path deadline s)) = (\<not> (clock s < deadline \<and> accessFault env (clock s) = None))
   \<and> (snd (waitForSocket env ref path deadline s) = s
       \<or> snd (waitForSocket env ref path deadline s) = emit (Access path) s)"
  by (subst waitForSocket.simps, subst (2) waitForSocket.simps, subst (3) waitForSocket.simps)
     (auto split: option.splits)

lemma waitForSocket_grows: "grows s (snd (waitForSocket env ref path deadline s))"
proof (induction env ref path deadline s rule: waitForSocket.induct)
  case (1 env ref path deadline s)
  show ?case
  proof (cases "clock s < deadline \<and> accessFault env (clock s) = None \<and> path \<notin> files s")
    case True
    let ?s1 = "advance env ref path (100 + latency env (clock s)) (emit (Timer 100) (emit (Access path) s))"
    have "grows ?s1 (snd (waitForSocket env ref path deadline ?s1))"
      using "1.IH" True by simp
    moreover have "grows s ?s1"
      by (rule grows_trans [OF grows_emit grows_trans [OF grows_emit advance_grows]])
    ultimately show ?thesis using True waitForSocket_step [of s deadline env path ref]
      by (simp add: grows_trans)
  next
    case False
    then show ?thesis using waitForSocket_stop [OF False, of ref] by auto
  qed
qed

lemma waitForSocket_preserves:
  assumes "I s"
    and "\<And>u. I u \<Longrightarrow> clock u < deadline \<Longrightarrow> path \<notin> files u \<Longrightarrow>
           I (advance env ref path (100 + latency env (clock u)) (emit (Timer 100) (emit (Access path) u)))"
    and "\<And>u. I u \<Longrightarrow> I (emit (Access path) u)"
  shows "I (snd (waitForSocket env ref path deadline s))"
  using assms
proof (induction env ref path deadline s rule: waitForSocket.induct)
  case (1 env ref path deadline s)
  show ?case
  proof (cases "clock s < deadline \<and> accessFault env (clock s) = None \<and> path \<notin> files s")
    case True
    let ?s1 = "advance env ref path (100 + latency env (clock s)) (emit (Timer 100) (emit (Access path) s))"
    have c: "clock s < deadline" "accessFault env (clock s) = None" "path \<notin> files s"
      using True by simp_all
    have "I ?s1" by (rule "1.prems"(2) [OF "1.prems"(1) c(1) c(3)])
    then have "I (snd (waitForSocket env ref path deadline ?s1))"
      by (rule "1.IH" [OF c(1) c(2) c(3) _ "1.prems"(2) "1.prems"(3)])
    then show ?thesis using True waitForSocket_step [of s deadline env path ref] by simp
  next
    case False
    then show ?thesis
      using waitForSocket_stop [OF False, of ref] "1.prems"(1) "1.prems"(3) [OF "1.prems"(1)] by auto
  qed
qed

lemma waitForSocket_fails:
  assumes "\<forall>t. socketCreatedAt env = Some t \<longrightarrow> deadline \<le> t"
    and "path \<notin> files s \<or> deadline \<le> clock s"
  shows "isl (fst (waitForSocket env ref path deadline s))"
  using assms
proof (induction env ref path deadline s rule: waitForSocket.induct)
  case (1 env ref path deadline s)
  show ?case
  proof (cases "clock s < deadline \<and> accessFault env (clock s) = None \<and> path \<notin> files s")
    case True
    let ?s1 = "advance env ref path (100 + latency env (clock s)) (emit (Timer 100) (emit (Access path) s))"
    have "path \<notin> files ?s1 \<or> deadline \<le> clock ?s1"
      using True "1.prems"(1) by (auto simp: advance_files split: option.splits)
    then have "isl (fst (waitForSocket env ref path deadline ?s1))"
      using "1.IH" True "1.prems"(1) by simp
    then show ?thesis using True waitForSocket_step [of s deadline env path ref] by simp
  next
    case False
    then show ?thesis using waitForSocket_stop [OF False, of ref] "1.prems"(2) by auto
  qed
qed

lemma waitForSocket_no_cleanup:
  "e \<in> set (since s (snd (waitForSocket env ref path deadline s))) \<Longrightarrow> \<not> is_cleanup (fst e)"
proof -
  let ?I = "\<lambda>u. grows s u \<and> (\<forall>e \<in> set (since s u). \<not> is_cleanup (fst e))"
  have "?I (snd (waitForSocket env ref path deadline s))"
  proof (rule waitForSocket_preserves [where I = ?I])
    show "?I s" by simp
  next
    fix u assume u: "?I u"
    let ?a = "emit (Access path) u"
    let ?b = "emit (Timer 100) ?a"
    let ?c = "advance env ref path (100 + latency env (clock u)) ?b"
    have gb: "grows s ?b" using u by (meson grows_emit grows_trans)
    have gc: "grows s ?c" using gb advance_grows grows_trans by blast
    have "since s ?c = since s ?b @ since ?b ?c"
      using gb advance_grows by (rule since_append)
    moreover have "\<forall>e \<in> set (since ?b ?c). \<not> is_cleanup (fst e)"
      using advance_since_loggers logger_not_cleanup by blast
    moreover have "\<forall>e \<in> set (since s ?b). \<not> is_cleanup (fst e)"
      using u by (simp add: grows_trans [OF _ grows_emit])
    ultimately show "?I ?c" using gc by auto
  next
    fix u assume u: "?I u"
    then show "?I (emit (Access path) u)" by (simp add: grows_trans [OF _ grows_emit])
  qed
  then show "e \<in> set (since s (snd (waitForSocket env ref path deadline s))) \<Longrightarrow> \<not> is_cleanup (fst e)"
    by blast
qed

lemma waitForSocket_killed:
  "killed (children (snd (waitForSocket env ref path deadline s)) r) = killed (children s r)"
  by (rule waitForSocket_preserves [where I = "\<lambda>u. killed (children u r) = killed (children s r)"])
    simp_all

lemma waitForSocket_final:
  assumes "I s"
    and "\<And>u. I u \<Longrightarrow> clock u < deadline \<Longrightarrow> path \<notin> files u \<Longrightarrow>
           I (advance env ref path (100 + latency env (clock u)) (emit (Timer 100) (emit (Access path) u)))"
  shows "\<exists>u. I u \<and> \<not> (clock u < deadline \<and> accessFault env (clock u) = None \<and> path \<notin> files u)
             \<and> (snd (waitForSocket env ref path deadline s) = u
                  \<or> snd (waitForSocket env ref path deadline s) = emit (Access path) u)"
  using assms
proof (induction env ref path deadline s rule: waitForSocket.induct)
  case (1 env ref path deadline s)
  show ?case
  proof (cases "clock s < deadline \<and> accessFault env (clock s) = None \<and> path \<notin> files s")
    case True
    let ?s1 = "advance env ref path (100 + latency env (clock s)) (emit (Timer 100) (emit (Access path) s))"
    have c: "clock s < deadline" "accessFault env (clock s) = None" "path \<notin> files s"
      using True by simp_all
    have "I ?s1" by (rule "1.prems"(2) [OF "1.prems"(1) c(1) c(3)])
    then have "\<exists>u. I u \<and> \<not> (clock u < deadline \<and> accessFault env (clock u) = None \<and> path \<notin> files u)
             \<and> (snd (waitForSocket env ref path deadline ?s1) = u
                  \<or> snd (waitForSocket env ref path deadline ?s1) = emit (Access path) u)"
      by (rule "1.IH" [OF c(1) c(2) c(3) _ "1.prems"(2)])
    then show ?thesis using waitForSocket_step [OF c(1) c(2) c(3), of ref] by simp
  next
    case False
    then show ?thesis
      using waitForSocket_stop [OF False, of ref] "1.prems"(1) by blast
  qed
qed

lemma advance_exitCode:
  "proc_exitCode (children (advance env ref path dt s) r) =
     (case childExit env of
        None \<Rightarrow> proc_exitCode (children s r)
      | Some (t, code, signal) \<Rightarrow>
          if clock s < t \<and> t \<le> clock s + dt \<and> r = ref then code
          else proc_exitCode (children s r))"
  by (cases "childExit env"; cases "childError env"; cases "socketCreatedAt env")
     (auto simp: advance_def Let_def)

lemma waitForSocket_exit_delivered:
  assumes ex: "childExit env = Some (t, code, signal)"
    and nofault: "\<forall>u. accessFault env u = None"
    and nosock: "\<forall>t'. socketCreatedAt env = Some t' \<longrightarrow> deadline \<le> t'"
    and t: "t \<le> deadline"
    and s: "clock s < t" "path \<notin> files s"
  shows "proc_exitCode (children (snd (waitForSocket env ref path deadline s)) ref) = code"
proof -
  let ?I = "\<lambda>u::vscode_state. (path \<notin> files u \<or> deadline \<le> clock u)
               \<and> (clock u < t \<or> proc_exitCode (children u ref) = code)"
  have "\<exists>u. ?I u \<and> \<not> (clock u < deadline \<and> accessFault env (clock u) = None \<and> path \<notin> files u)
             \<and> (snd (waitForSocket env ref path deadline s) = u
                  \<or> snd (waitForSocket env ref path deadline s) = emit (Access path) u)"
  proof (rule waitForSocket_final [where I = ?I])
    show "?I s" using s by simp
  next
    fix u assume u: "?I u" and c: "clock u < deadline" "path \<notin> files u"
    let ?b = "emit (Timer 100) (emit (Access path) u)"
    let ?c = "advance env ref path (100 + latency env (clock u)) ?b"
    have f: "path \<notin> files ?c \<or> deadline \<le> clock ?c"
      using c nosock by (auto simp: advance_files split: option.splits)
    have "proc_exitCode (children ?c ref)
            = (if clock u < t \<and> t \<le> clock u + (100 + latency env (clock u)) then code
               else proc_exitCode (children u ref))"
      by (simp add: advance_exitCode ex)
    then have e: "clock ?c < t \<or> proc_exitCode (children ?c ref) = code"
      using u by (cases "clock u < t") auto
    show "?I ?c" using f e by blast
  qed
  then obtain u where uu: "?I u \<and> \<not> (clock u < deadline \<and> accessFault env (clock u) = None \<and> path \<notin> files u)
             \<and> (snd (waitForSocket env ref path deadline s) = u
                  \<or> snd (waitForSocket env ref path deadline s) = emit (Access path) u)"
    by (rule exE)
  note u = conjunct1 [OF uu] conjunct1 [OF conjunct2 [OF uu]] conjunct2 [OF conjunct2 [OF uu]]
  have "deadline \<le> clock u" using u(1,2) nofault by auto
  then have "proc_exitCode (children u ref) = code" using u(1) t by auto
  then show ?thesis using u(3) by auto
qed

lemma waitForSocket_exitCode_kept:
  "childExit env = None \<Longrightarrow>
   proc_exitCode (children (snd (waitForSocket env ref path deadline s)) r) = proc_exitCode (children s r)"
  by (rule waitForSocket_preserves
        [where I = "\<lambda>u. proc_exitCode (children u r) = proc_exitCode (children s r)"])
     (simp_all add: advance_exitCode)

text \<open>The state after the guarded kill of a \<open>catch\<close> or \<open>stop\<close> block.\<close>

lemma childKill_cases:
  "(case childKill env ref s of (Inl msg, s') \<Rightarrow> emit w s' | (Inr x, s') \<Rightarrow> s')
     = (case killOutcome env ref of
          KillThrows msg \<Rightarrow> emit w (snd (childKill env ref s))
        | _ \<Rightarrow> snd (childKill env ref s))"
  by (simp add: childKill_def Let_def split: kill_outcome.splits)

lemma launchFailed_none:
  "launchFailed env None path err s =
     (None, (snd (unlinkFile env path
               (emit (LoggerError (''Failed to launch VS Code serve-web via unix socket: '' @ err)) s)))
            \<lparr>currentServeWebBaseUrl := None, currentServeWebSocketPath := None\<rparr>)"
  by (simp add: launchFailed_def Let_def)

lemma launchFailed_gone:
  "killed (children s ref) \<or> proc_exitCode (children s ref) \<noteq> None \<Longrightarrow>
   launchFailed env (Some ref) path err s =
     (None, (snd (unlinkFile env path
               (emit (LoggerError (''Failed to launch VS Code serve-web via unix socket: '' @ err)) s)))
            \<lparr>currentServeWebBaseUrl := None, currentServeWebSocketPath := None\<rparr>)"
  by (auto simp: launchFailed_def Let_def)

lemma launchFailed_alive:
  "\<not> killed (children s ref) \<Longrightarrow> proc_exitCode (children s ref) = None \<Longrightarrow>
   launchFailed env (Some ref) path err s =
     (None, (snd (unlinkFile env path
               (case killOutcome env ref of
                  KillThrows msg \<Rightarrow>
                    emit (LoggerWarn ''Failed to terminate VS Code serve-web after launch failure:'')
                      (snd (childKill env ref
                         (emit (LoggerError (''Failed to launch VS Code serve-web via unix socket: '' @ err)) s)))
                | _ \<Rightarrow> snd (childKill env ref
                         (emit (LoggerError (''Failed to launch VS Code serve-web via unix socket: '' @ err)) s)))))
            \<lparr>currentServeWebBaseUrl := None, currentServeWebSocketPath := None\<rparr>)"
  by (cases "killOutcome env ref") (simp_all add: launchFailed_def Let_def childKill_def)

lemma launchFailed_basic:
  "fst (launchFailed env child path err s) = None"
  "currentServeWebBaseUrl (snd (launchFailed env child path err s)) = None"
  "currentServeWebSocketPath (snd (launchFailed env child path err s)) = None"
  by (simp_all add: launchFailed_def Let_def)

lemma launchFailed_files:
  "path \<notin> files (snd (launchFailed env child path err s)) \<or> unlinkError env path \<noteq> None"
  by (simp add: launchFailed_def Let_def unlinkFile_files)

lemma launchFailed_last:
  "history (snd (launchFailed env child path err s)) \<noteq> []
   \<and> fst (last (history (snd (launchFailed env child path err s)))) = Unlink path"
  by (simp add: launchFailed_def Let_def)

lemma launchFailed_exitCode:
  "proc_exitCode (children (snd (launchFailed env child path err s)) r) = proc_exitCode (children s r)"
proof (cases child)
  case None
  then show ?thesis by (simp add: launchFailed_none)
next
  case (Some ref)
  show ?thesis
  proof (cases "killed (children s ref) \<or> proc_exitCode (children s ref) \<noteq> None")
    case True
    then show ?thesis using Some by (simp add: launchFailed_gone)
  next
    case False
    then show ?thesis using Some
      by (cases "killOutcome env ref") (simp_all add: launchFailed_alive childKill_children)
  qed
qed

lemma launchFailed_grows: "grows s (snd (launchFailed env child path err s))"
proof (cases child)
  case None
  then show ?thesis by (simp add: launchFailed_none grows_def)
next
  case (Some ref)
  show ?thesis
  proof (cases "killed (children s ref) \<or> proc_exitCode (children s ref) \<noteq> None")
    case True
    then show ?thesis using Some by (simp add: launchFailed_gone grows_def)
  next
    case False
    then show ?thesis using Some
      by (cases "killOutcome env ref") (simp_all add: launchFailed_alive grows_def)
  qed
qed

lemma launchFailed_kill:
  "Kill ref \<in> set (map fst (since s (snd (launchFailed env (Some ref) path err s))))
     \<longleftrightarrow> \<not> killed (children s ref) \<and> proc_exitCode (children s ref) = None"
proof (cases "killed (children s ref) \<or> proc_exitCode (children s ref) \<noteq> None")
  case True
  then show ?thesis by (auto simp: launchFailed_gone since_def)
next
  case False
  then show ?thesis
    by (cases "killOutcome env ref") (simp_all add: launchFailed_alive since_def)
qed

lemma removeStaleSocket_eq:
  "removeStaleSocket env path s =
     (if path \<in> files s
      then (case unlinkError env path of
              None \<Rightarrow> emit (LoggerInfo (''Removed stale VS Code serve-web socket at '' @ path))
                       (snd (unlinkFile env path s))
            | Some code \<Rightarrow>
                if code = ''ENOENT'' then snd (unlinkFile env path s)
                else emit (LoggerDebug ''Failed to remove stale VS Code serve-web socket:'')
                       (snd (unlinkFile env path s)))
      else snd (unlinkFile env path s))"
  by (simp add: removeStaleSocket_def unlinkFile_def Let_def split: option.splits)

lemma removeStaleSocket_simps [simp]:
  "children (removeStaleSocket env path s) = children s"
  "clock (removeStaleSocket env path s) = clock s"
  "files (removeStaleSocket env path s) = files (snd (unlinkFile env path s))"
  "grows s (removeStaleSocket env path s)"
  by (simp_all add: removeStaleSocket_eq grows_def split: option.splits)

lemma removeStaleSocket_no_kill:
  "e \<in> set (since s (removeStaleSocket env path s)) \<Longrightarrow> fst e \<noteq> Kill r"
  by (auto simp: removeStaleSocket_eq since_def split: option.splits if_splits)

lemma stateBeforeWait_simps:
  "clock (stateBeforeWait env exe ref s) = clock s"
  "children (stateBeforeWait env exe ref s) ref = freshChild"
  "files (stateBeforeWait env exe ref s)
     = files (snd (unlinkFile env (createSocketPath env (clock s)) s))"
  by (simp_all add: stateBeforeWait_def Let_def unlinkFile_files)

lemma stateBeforeWait_grows: "grows s (stateBeforeWait env exe ref s)"
proof -
  let ?s0 = "emit (LoggerInfo ''Ensuring VS Code serve-web availability...'') s"
  let ?p = "createSocketPath env (clock ?s0)"
  have "grows ?s0 (removeStaleSocket env ?p ?s0)" by simp
  then have "grows s (removeStaleSocket env ?p ?s0)"
    using grows_trans [OF grows_emit] by blast
  moreover have "grows (removeStaleSocket env ?p ?s0) (stateBeforeWait env exe ref s)"
    by (simp add: stateBeforeWait_def Let_def grows_def)
  ultimately show ?thesis by (rule grows_trans)
qed

lemma stateBeforeWait_no_kill:
  assumes "e \<in> set (since s (stateBeforeWait env exe ref s))"
  shows "fst e \<noteq> Kill r"
proof -
  let ?s0 = "emit (LoggerInfo ''Ensuring VS Code serve-web availability...'') s"
  let ?p = "createSocketPath env (clock ?s0)"
  let ?s1 = "removeStaleSocket env ?p ?s0"
  obtain x where x: "history ?s1 = history ?s0 @ x"
    using removeStaleSocket_simps(4) [of ?s0 env ?p] unfolding grows_def prefix_def by blast
  then have "\<forall>e \<in> set x. fst e \<noteq> Kill r"
    using removeStaleSocket_no_kill [of _ ?s0 env ?p r] by (simp add: since_def)
  then show ?thesis using assms x
    by (auto simp: stateBeforeWait_def Let_def since_def)
qed

lemma ensureVSCodeServeWeb_spawned:
  assumes "executableFound env = Some exe" "platform env \<noteq> ''win32''" "spawnOutcome env = Inr ref"
    and "isl (fst (waitForSocket env ref (createSocketPath env (clock s))
                    (clock s + SOCKET_READY_TIMEOUT_MS) (stateBeforeWait env exe ref s)))"
  shows "\<exists>err. ensureVSCodeServeWeb env s =
           launchFailed env (Some ref) (createSocketPath env (clock s)) err
             (snd (waitForSocket env ref (createSocketPath env (clock s))
                     (clock s + SOCKET_READY_TIMEOUT_MS) (stateBeforeWait env exe ref s)))"
proof -
  let ?w = "waitForSocket env ref (createSocketPath env (clock s))
              (clock s + SOCKET_READY_TIMEOUT_MS) (stateBeforeWait env exe ref s)"
  obtain err s4 where w: "?w = (Inl err, s4)"
    using assms(4) by (cases ?w; cases "fst ?w") auto
  have "ensureVSCodeServeWeb env s = launchFailed env (Some ref) (createSocketPath env (clock s)) err s4"
    using assms(1,2,3) w by (simp add: ensureVSCodeServeWeb_def stateBeforeWait_def Let_def)
  then show ?thesis using w by auto
qed

lemma ensure_timeout:
  assumes exe: "executableFound env = Some exe"
    and plat: "platform env \<noteq> ''win32''"
    and sp: "spawnOutcome env = Inr ref"
    and nosock: "\<forall>t. socketCreatedAt env = Some t \<longrightarrow> clock s + SOCKET_READY_TIMEOUT_MS \<le> t"
    and fresh: "createSocketPath env (clock s) \<notin> files s
                \<or> unlinkError env (createSocketPath env (clock s)) = None"
  shows "fst (ensureVSCodeServeWeb env s) = None"
    and "currentServeWebBaseUrl (snd (ensureVSCodeServeWeb env s)) = None"
    and "currentServeWebSocketPath (snd (ensureVSCodeServeWeb env s)) = None"
    and "history (snd (ensureVSCodeServeWeb env s)) \<noteq> []
         \<and> fst (last (history (snd (ensureVSCodeServeWeb env s)))) = Unlink (createSocketPath env (clock s))"
    and "createSocketPath env (clock s) \<notin> files (snd (ensureVSCodeServeWeb env s))
         \<or> unlinkError env (createSocketPath env (clock s)) \<noteq> None"
    and "Kill ref \<in> set (map fst (since s (snd (ensureVSCodeServeWeb env s))))
         \<longleftrightarrow> proc_exitCode (children (snd (ensureVSCodeServeWeb env s)) ref) = None"
    and "\<exists>err. ensureVSCodeServeWeb env s =
           launchFailed env (Some ref) (createSocketPath env (clock s)) err
             (snd (waitForSocket env ref (createSocketPath env (clock s))
                     (clock s + SOCKET_READY_TIMEOUT_MS) (stateBeforeWait env exe ref s)))"
proof -
  let ?p = "createSocketPath env (clock s)"
  let ?d = "clock s + SOCKET_READY_TIMEOUT_MS"
  let ?sb = "stateBeforeWait env exe ref s"
  let ?s4 = "snd (waitForSocket env ref ?p ?d ?sb)"
  have nofile: "?p \<notin> files ?sb"
    using fresh by (auto simp: stateBeforeWait_simps unlinkFile_files)
  have fails: "isl (fst (waitForSocket env ref ?p ?d ?sb))"
    using nosock nofile by (intro waitForSocket_fails) simp_all
  obtain err where form: "ensureVSCodeServeWeb env s = launchFailed env (Some ref) ?p err ?s4"
    using ensureVSCodeServeWeb_spawned [OF exe plat sp fails] by (rule exE)
  show "\<exists>err. ensureVSCodeServeWeb env s = launchFailed env (Some ref) ?p err ?s4"
    using form by (rule exI)
  show "fst (ensureVSCodeServeWeb env s) = None"
    and "currentServeWebBaseUrl (snd (ensureVSCodeServeWeb env s)) = None"
    and "currentServeWebSocketPath (snd (ensureVSCodeServeWeb env s)) = None"
    unfolding form by (rule launchFailed_basic)+
  show "history (snd (ensureVSCodeServeWeb env s)) \<noteq> []
         \<and> fst (last (history (snd (ensureVSCodeServeWeb env s)))) = Unlink ?p"
    unfolding form by (rule launchFailed_last)
  show "?p \<notin> files (snd (ensureVSCodeServeWeb env s)) \<or> unlinkError env ?p \<noteq> None"
    unfolding form by (rule launchFailed_files)
  let ?s' = "snd (launchFailed env (Some ref) ?p err ?s4)"
  have g1: "grows s ?sb" by (rule stateBeforeWait_grows)
  have g2: "grows ?sb ?s4" by (rule waitForSocket_grows)
  have g3: "grows ?s4 ?s'" by (rule launchFailed_grows)
  have g12: "grows s ?s4" using g1 g2 by (rule grows_trans)
  have split: "since s ?s' = since s ?sb @ since ?sb ?s4 @ since ?s4 ?s'"
    using since_append [OF g12 g3] since_append [OF g1 g2] by simp
  have k1: "Kill ref \<notin> set (map fst (since s ?sb))"
    using stateBeforeWait_no_kill [of _ s env exe ref ref] by fastforce
  have k2: "Kill ref \<notin> set (map fst (since ?sb ?s4))"
    using waitForSocket_no_cleanup [of _ ?sb env ref ?p ?d] by fastforce
  have alive: "\<not> killed (children ?s4 ref)"
    by (simp add: waitForSocket_killed stateBeforeWait_simps freshChild_def)
  have "Kill ref \<in> set (map fst (since s ?s')) \<longleftrightarrow> Kill ref \<in> set (map fst (since ?s4 ?s'))"
    using k1 k2 unfolding split by simp
  also have "\<dots> \<longleftrightarrow> proc_exitCode (children ?s4 ref) = None"
    using alive launchFailed_kill [of ref ?s4 env ?p err] by simp
  also have "\<dots> \<longleftrightarrow> proc_exitCode (children ?s' ref) = None"
    by (simp add: launchFailed_exitCode)
  finally show "Kill ref \<in> set (map fst (since s (snd (ensureVSCodeServeWeb env s))))
         \<longleftrightarrow> proc_exitCode (children (snd (ensureVSCodeServeWeb env s)) ref) = None"
    unfolding form .
qed


lemma linux_env_simps:
  "executableFound linux_env = Some ''/usr/bin/code''"
  "platform linux_env \<noteq> ''win32''"
  "spawnOutcome linux_env = Inr 1"
  "socketCreatedAt linux_env = None"
  "childExit linux_env = None"
  "unlinkError linux_env p = None"
  by (simp_all add: linux_env_def)

lemma crash_env_simps:
  "executableFound crash_env = Some ''/usr/bin/code''"
  "platform crash_env \<noteq> ''win32''"
  "spawnOutcome crash_env = Inr 1"
  "socketCreatedAt crash_env = None"
  "childExit crash_env = Some (50, Some 1, None)"
  "unlinkError crash_env p = None"
  "accessFault crash_env t = None"
  by (simp_all add: crash_env_def linux_env_def)

lemma idle_state_simps:
  "files idle_state = {}" "clock idle_state = 0" "history idle_state = []"
  by (simp_all add: idle_state_def)

lemma since_idle: "since idle_state s = history s"
  by (simp add: since_def idle_state_simps)

lemma linux_child_alive:
  "proc_exitCode (children (snd (ensureVSCodeServeWeb linux_env idle_state)) 1) = None"
proof -
  obtain err where "ensureVSCodeServeWeb linux_env idle_state =
           launchFailed linux_env (Some 1) (createSocketPath linux_env (clock idle_state)) err
             (snd (waitForSocket linux_env 1 (createSocketPath linux_env (clock idle_state))
                     (clock idle_state + SOCKET_READY_TIMEOUT_MS)
                     (stateBeforeWait linux_env ''/usr/bin/code'' 1 idle_state)))"
    using ensure_timeout(7) [of linux_env "''/usr/bin/code''" 1 idle_state]
    by (auto simp: linux_env_simps idle_state_simps)
  then show ?thesis
    by (simp add: launchFailed_exitCode waitForSocket_exitCode_kept linux_env_simps
        stateBeforeWait_simps freshChild_def)
qed

lemma crash_child_exited:
  "proc_exitCode (children (snd (ensureVSCodeServeWeb crash_env idle_state)) 1) = Some 1"
proof -
  let ?p = "createSocketPath crash_env (clock idle_state)"
  let ?sb = "stateBeforeWait crash_env ''/usr/bin/code'' 1 idle_state"
  obtain err where form: "ensureVSCodeServeWeb crash_env idle_state =
           launchFailed crash_env (Some 1) ?p err
             (snd (waitForSocket crash_env 1 ?p (clock idle_state + SOCKET_READY_TIMEOUT_MS) ?sb))"
    using ensure_timeout(7) [of crash_env "''/usr/bin/code''" 1 idle_state]
    by (auto simp: crash_env_simps idle_state_simps)
  have "proc_exitCode (children (snd (waitForSocket crash_env 1 ?p
            (clock idle_state + SOCKET_READY_TIMEOUT_MS) ?sb)) 1) = Some 1"
    by (rule waitForSocket_exit_delivered [where t = 50 and signal = None])
       (simp_all add: crash_env_simps idle_state_simps stateBeforeWait_simps unlinkFile_files
          SOCKET_READY_TIMEOUT_MS_def)
  then show ?thesis by (simp add: form launchFailed_exitCode)
qed



section \<open>Properties of the process handlers and of \<open>stopVSCodeServeWeb\<close>\<close>




lemma stopUnlinked_simps:
  "currentServeWebBaseUrl (stopUnlinked env h s) = None"
  "currentServeWebSocketPath (stopUnlinked env h s) = None"
  "children (stopUnlinked env h s) = children s"
  "files (stopUnlinked env h s)
     = (if unlinkError env (socketPath h) = None then files s - {socketPath h} else files s)"
  "\<exists>tail. (\<forall>e \<in> set tail. is_logger (fst e) \<and> (socketPath h \<notin> files s \<longrightarrow> \<not> is_warn (fst e)))
         \<and> history (stopUnlinked env h s) = history s @ (Unlink (socketPath h), None, None) # tail"
  by (auto simp: stopUnlinked_def unlinkFile_def Let_def emit_def split: option.splits)

lemma stop_eq:
  "stopVSCodeServeWeb env (Some h) s =
     (if alive (children s (process h))
      then (case killOutcome env (process h) of
              KillThrows msg \<Rightarrow>
                emit (LoggerError (''Failed to stop VS Code serve-web process: '' @ msg))
                  (snd (childKill env (process h)
                     (emit (LoggerInfo ''Stopping VS Code serve-web process...'') (stopUnlinked env h s))))
            | _ \<Rightarrow> snd (childKill env (process h)
                     (emit (LoggerInfo ''Stopping VS Code serve-web process...'') (stopUnlinked env h s))))
      else stopUnlinked env h s)"
proof -
  have u: "stopVSCodeServeWeb env (Some h) s =
      (let s2 = stopUnlinked env h s; child = children s2 (process h)
       in if killed child \<or> proc_exitCode child \<noteq> None \<or> signalCode child \<noteq> None
          then s2
          else (case childKill env (process h) (emit (LoggerInfo ''Stopping VS Code serve-web process...'') s2) of
                  (Inl msg, s') \<Rightarrow> emit (LoggerError (''Failed to stop VS Code serve-web process: '' @ msg)) s'
                | (Inr _, s') \<Rightarrow> s'))"
    by (simp add: stopVSCodeServeWeb_def stopUnlinked_def Let_def)
  show ?thesis
    unfolding u
    by (cases "killOutcome env (process h)")
       (auto simp: Let_def stopUnlinked_simps(3) alive_def childKill_def)
qed

lemma stop_since:
  "\<exists>tail err.
      (\<forall>e \<in> set (tail @ err). is_logger (fst e) \<and> (is_warn (fst e) \<longrightarrow> socketPath h \<in> files s))
    \<and> history (stopVSCodeServeWeb env (Some h) s)
        = history s @ (Unlink (socketPath h), None, None) # tail
            @ (if alive (children s (process h))
               then (LoggerInfo ''Stopping VS Code serve-web process...'', None, None)
                    # (Kill (process h), None, None) # err
               else [])"
proof -
  obtain tail where t:
    "\<forall>e \<in> set tail. is_logger (fst e) \<and> (socketPath h \<notin> files s \<longrightarrow> \<not> is_warn (fst e))"
    "history (stopUnlinked env h s) = history s @ (Unlink (socketPath h), None, None) # tail"
    using stopUnlinked_simps(5) [of h s env] by blast
  show ?thesis
  proof (cases "alive (children s (process h))")
    case False
    then have "history (stopVSCodeServeWeb env (Some h) s)
                 = history s @ (Unlink (socketPath h), None, None) # tail @ []"
      by (simp add: stop_eq t(2))
    with t(1) False show ?thesis
      by (intro exI [of _ tail] exI [of _ "[]"]) auto
  next
    case True
    show ?thesis
    proof (cases "killOutcome env (process h)")
      case (KillThrows msg)
      with True t(2) have "history (stopVSCodeServeWeb env (Some h) s)
          = history s @ (Unlink (socketPath h), None, None) # tail
             @ (LoggerInfo ''Stopping VS Code serve-web process...'', None, None)
               # (Kill (process h), None, None)
               # [(LoggerError (''Failed to stop VS Code serve-web process: '' @ msg), None, None)]"
        by (simp add: stop_eq stopUnlinked_simps(1,2))
      with t(1) True show ?thesis
        by (intro exI [of _ tail]
              exI [of _ "[(LoggerError (''Failed to stop VS Code serve-web process: '' @ msg), None, None)]"])
           auto
    next
      case KillDelivered
      with True t(2) have "history (stopVSCodeServeWeb env (Some h) s)
          = history s @ (Unlink (socketPath h), None, None) # tail
             @ (LoggerInfo ''Stopping VS Code serve-web process...'', None, None)
               # (Kill (process h), None, None) # []"
        by (simp add: stop_eq stopUnlinked_simps(1,2))
      with t(1) True show ?thesis
        by (intro exI [of _ tail] exI [of _ "[]"]) auto
    next
      case KillNotDelivered
      with True t(2) have "history (stopVSCodeServeWeb env (Some h) s)
          = history s @ (Unlink (socketPath h), None, None) # tail
             @ (LoggerInfo ''Stopping VS Code serve-web process...'', None, None)
               # (Kill (process h), None, None) # []"
        by (simp add: stop_eq stopUnlinked_simps(1,2))
      with t(1) True show ?thesis
        by (intro exI [of _ tail] exI [of _ "[]"]) auto
    qed
  qed
qed

lemma stop_observable:
  "observable (stopVSCodeServeWeb env (Some h) s) =
     (None, None,
      (if alive (children s (process h)) \<and> killOutcome env (process h) = KillDelivered
       then (children s)(process h := (children s (process h))\<lparr>killed := True\<rparr>)
       else children s),
      (if unlinkError env (socketPath h) = None then files s - {socketPath h} else files s))"
  by (cases "killOutcome env (process h)")
     (simp_all add: observable_def stop_eq stopUnlinked_simps childKill_children)

lemma stop_events:
  "(\<forall>e \<in> set (since s (stopVSCodeServeWeb env (Some h) s)). is_cleanup (fst e) \<longrightarrow> snd e = (None, None))
   \<and> (socketPath h \<notin> files s \<longrightarrow>
        (\<forall>e \<in> set (since s (stopVSCodeServeWeb env (Some h) s)). \<not> is_warn (fst e)))
   \<and> (Unlink (socketPath h) \<in> fst ` set (since s (stopVSCodeServeWeb env (Some h) s)))
   \<and> ((\<exists>r. Kill r \<in> fst ` set (since s (stopVSCodeServeWeb env (Some h) s)))
        \<longleftrightarrow> alive (children s (process h)))
   \<and> (Kill (process h) \<in> fst ` set (since s (stopVSCodeServeWeb env (Some h) s))
        \<longleftrightarrow> alive (children s (process h)))"
proof -
  obtain tail err where t:
    "\<forall>e \<in> set (tail @ err). is_logger (fst e) \<and> (is_warn (fst e) \<longrightarrow> socketPath h \<in> files s)"
    "history (stopVSCodeServeWeb env (Some h) s)
        = history s @ (Unlink (socketPath h), None, None) # tail
            @ (if alive (children s (process h))
               then (LoggerInfo ''Stopping VS Code serve-web process...'', None, None)
                    # (Kill (process h), None, None) # err
               else [])"
    using stop_since [of h s env] by blast
  have s: "since s (stopVSCodeServeWeb env (Some h) s)
        = (Unlink (socketPath h), None, None) # tail
            @ (if alive (children s (process h))
               then (LoggerInfo ''Stopping VS Code serve-web process...'', None, None)
                    # (Kill (process h), None, None) # err
               else [])"
    by (simp add: since_def t(2))
  have nk: "fst e \<noteq> Kill r" if "e \<in> set (tail @ err)" for e r
  proof
    assume "fst e = Kill r"
    moreover have "is_logger (fst e)" using t(1) that by blast
    ultimately show False by simp
  qed
  have nk': "Kill r \<notin> fst ` set tail" "Kill r \<notin> fst ` set err" for r
    using nk [of _ r] by force+
  have c1: "\<forall>e \<in> set (since s (stopVSCodeServeWeb env (Some h) s)).
              is_cleanup (fst e) \<longrightarrow> snd e = (None, None)"
    unfolding s using t(1) by (auto dest: logger_not_cleanup)
  have c2: "socketPath h \<notin> files s \<longrightarrow>
              (\<forall>e \<in> set (since s (stopVSCodeServeWeb env (Some h) s)). \<not> is_warn (fst e))"
    unfolding s using t(1) by auto
  have c3: "Unlink (socketPath h) \<in> fst ` set (since s (stopVSCodeServeWeb env (Some h) s))"
    unfolding s by simp
  have img: "fst ` set (since s (stopVSCodeServeWeb env (Some h) s))
        = insert (Unlink (socketPath h)) (fst ` set tail)
          \<union> (if alive (children s (process h))
              then insert (LoggerInfo ''Stopping VS Code serve-web process...'')
                     (insert (Kill (process h)) (fst ` set err))
              else {})"
  proof -
    have "map fst (since s (stopVSCodeServeWeb env (Some h) s))
        = Unlink (socketPath h) # map fst tail
          @ (if alive (children s (process h))
             then LoggerInfo ''Stopping VS Code serve-web process...'' # Kill (process h) # map fst err
             else [])"
      unfolding s by simp
    from arg_cong [OF this, of set] show ?thesis
      by (cases "alive (children s (process h))") (simp_all add: insert_commute)
  qed
  have c5: "Kill (process h) \<in> fst ` set (since s (stopVSCodeServeWeb env (Some h) s))
        \<longleftrightarrow> alive (children s (process h))"
    unfolding img using nk' [of "process h"] by simp
  have c4: "(\<exists>r. Kill r \<in> fst ` set (since s (stopVSCodeServeWeb env (Some h) s)))
        \<longleftrightarrow> alive (children s (process h))"
  proof
    assume "\<exists>r. Kill r \<in> fst ` set (since s (stopVSCodeServeWeb env (Some h) s))"
    then obtain r where "Kill r \<in> fst ` set (since s (stopVSCodeServeWeb env (Some h) s))" ..
    then show "alive (children s (process h))"
      unfolding img using nk' [of r] by (simp split: if_splits)
  next
    assume "alive (children s (process h))"
    with c5 show "\<exists>r. Kill r \<in> fst ` set (since s (stopVSCodeServeWeb env (Some h) s))"
      by (intro exI [of _ "process h"]) simp
  qed
  from c1 c2 c3 c4 c5 show ?thesis by (intro conjI)
qed

lemma stop_children_alive:
  "alive (children (stopVSCodeServeWeb env (Some h) s) (process h))
     \<longleftrightarrow> alive (children s (process h)) \<and> killOutcome env (process h) \<noteq> KillDelivered"
proof -
  have "children (stopVSCodeServeWeb env (Some h) s) =
      (if alive (children s (process h)) \<and> killOutcome env (process h) = KillDelivered
       then (children s)(process h := (children s (process h))\<lparr>killed := True\<rparr>)
       else children s)"
    using stop_observable [of env h s] by (simp add: observable_def)
  then show ?thesis by (auto simp: alive_def)
qed

lemma stop_twice_observable:
  "observable (stopVSCodeServeWeb env (Some h) (stopVSCodeServeWeb env (Some h) s))
     = observable (stopVSCodeServeWeb env (Some h) s)"
proof -
  let ?once = "stopVSCodeServeWeb env (Some h) s"
  have f: "files ?once = (if unlinkError env (socketPath h) = None then files s - {socketPath h} else files s)"
    and c: "currentServeWebBaseUrl ?once = None" "currentServeWebSocketPath ?once = None"
    using stop_observable [of env h s] by (simp_all add: observable_def)
  have "observable (stopVSCodeServeWeb env (Some h) ?once)
      = (None, None,
      (if alive (children ?once (process h)) \<and> killOutcome env (process h) = KillDelivered
       then (children ?once)(process h := (children ?once (process h))\<lparr>killed := True\<rparr>)
       else children ?once),
      (if unlinkError env (socketPath h) = None then files ?once - {socketPath h} else files ?once))"
    by (rule stop_observable)
  also have "\<dots> = (None, None, children ?once, files ?once)"
    using stop_children_alive [of env h s] by (auto simp: f)
  also have "\<dots> = observable ?once"
    by (simp add: observable_def c)
  finally show ?thesis .
qed

text \<open>
  C8 as stated fails: when \<open>child.kill()\<close> throws, the error is logged and the child
  is left alive and not marked as killed, so a second call of \<open>stopVSCodeServeWeb\<close> on
  the same handle passes the guard and calls \<open>child.kill()\<close> once more.
\<close>

theorem C8_second_stop_kills_again_counterexample:
  "Kill 1 \<in> set (map fst (since
       (stopVSCodeServeWeb stubborn_env (Some running_handle) running_state)
       (stopVSCodeServeWeb stubborn_env (Some running_handle)
          (stopVSCodeServeWeb stubborn_env (Some running_handle) running_state))))"
proof -
  have "alive (children (stopVSCodeServeWeb stubborn_env (Some running_handle) running_state)
                 (process running_handle))"
    unfolding stop_children_alive
    by (simp add: alive_def running_state_def freshChild_def stubborn_env_def linux_env_def)
  then show ?thesis
    using stop_events
      [of "stopVSCodeServeWeb stubborn_env (Some running_handle) running_state"
          stubborn_env running_handle]
    by (simp add: running_handle_def)
qed

text \<open>
  C8 (amended): \<open>stopVSCodeServeWeb\<close> is a total function, so it raises nothing. On
  a null handle it does nothing. On a handle, a second call leaves the cache, the process
  objects and the files as the first call left them; each call leaves both cached values
  null, and they are already null when it unlinks the socket path and when it calls
  \<open>child.kill()\<close>; each call unlinks the socket path, and logs no warning when the
  file is missing; it calls \<open>child.kill()\<close> exactly when the child is not killed and
  has neither an exit code nor a signal code. The second call performs a further kill
  exactly when the child was alive at the first call and that kill was not delivered.
\<close>

theorem C8_stop_clears_then_cleans_up:
  "stopVSCodeServeWeb env None s = s
   \<and> observable (stopVSCodeServeWeb env (Some h) (stopVSCodeServeWeb env (Some h) s))
       = observable (stopVSCodeServeWeb env (Some h) s)
   \<and> getVSCodeServeWebBaseUrl (stopVSCodeServeWeb env (Some h) s) = None
   \<and> getVSCodeServeWebSocketPath (stopVSCodeServeWeb env (Some h) s) = None
   \<and> (\<forall>e \<in> set (since s (stopVSCodeServeWeb env (Some h) s)).
         is_cleanup (fst e) \<longrightarrow> snd e = (None, None))
   \<and> Unlink (socketPath h) \<in> set (map fst (since s (stopVSCodeServeWeb env (Some h) s)))
   \<and> (socketPath h \<notin> files s \<longrightarrow>
        (\<forall>e \<in> set (since s (stopVSCodeServeWeb env (Some h) s)). \<not> is_warn (fst e)))
   \<and> (Kill (process h) \<in> set (map fst (since s (stopVSCodeServeWeb env (Some h) s)))
        \<longleftrightarrow> alive (children s (process h)))
   \<and> ((\<exists>r. Kill r \<in> set (map fst (since (stopVSCodeServeWeb env (Some h) s)
                 (stopVSCodeServeWeb env (Some h) (stopVSCodeServeWeb env (Some h) s)))))
        \<longleftrightarrow> alive (children s (process h)) \<and> killOutcome env (process h) \<noteq> KillDelivered)"
proof -
  let ?once = "stopVSCodeServeWeb env (Some h) s"
  have a: "stopVSCodeServeWeb env None s = s"
    by (simp add: stopVSCodeServeWeb_def)
  have c: "getVSCodeServeWebBaseUrl ?once = None" "getVSCodeServeWebSocketPath ?once = None"
    using stop_observable [of env h s]
    by (simp_all add: observable_def getVSCodeServeWebBaseUrl_def getVSCodeServeWebSocketPath_def)
  note e1 = stop_events [of s env h]
  note e2 = stop_events [of ?once env h]
  have k2: "(\<exists>r. Kill r \<in> set (map fst (since ?once (stopVSCodeServeWeb env (Some h) ?once))))
        \<longleftrightarrow> alive (children s (process h)) \<and> killOutcome env (process h) \<noteq> KillDelivered"
    using e2 stop_children_alive [of env h s] by simp
  from a stop_twice_observable [of env h s] c e1 k2 show ?thesis
    by simp
qed

theorem C8_stop_clears_then_cleans_up_witness:
  "alive (children running_state (process running_handle))
   \<and> getVSCodeServeWebBaseUrl running_state = Some ''http://cmux-vscode.local''
   \<and> getVSCodeServeWebBaseUrl (stopVSCodeServeWeb linux_env (Some running_handle) running_state) = None
   \<and> Kill 1 \<in> set (map fst (since running_state
                  (stopVSCodeServeWeb linux_env (Some running_handle) running_state)))
   \<and> Kill 1 \<notin> set (map fst (since
                  (stopVSCodeServeWeb linux_env (Some running_handle) running_state)
                  (stopVSCodeServeWeb linux_env (Some running_handle)
                     (stopVSCodeServeWeb linux_env (Some running_handle) running_state))))
   \<and> socketPath running_handle
         \<notin> files (stopVSCodeServeWeb linux_env (Some running_handle) running_state)
   \<and> (LoggerWarn ''Failed to remove VS Code serve-web socket at /tmp/cmux-vscode-4242-0.sock: ENOENT'',
        None, None)
         \<notin> set (since
                  (stopVSCodeServeWeb linux_env (Some running_handle) running_state)
                  (stopVSCodeServeWeb linux_env (Some running_handle)
                     (stopVSCodeServeWeb linux_env (Some running_handle) running_state)))"
proof -
  have f: "socketPath running_handle
         \<notin> files (stopVSCodeServeWeb linux_env (Some running_handle) running_state)"
    using stop_observable [of linux_env running_handle running_state]
    by (simp add: observable_def linux_env_def)
  have "\<forall>e \<in> set (since
                  (stopVSCodeServeWeb linux_env (Some running_handle) running_state)
                  (stopVSCodeServeWeb linux_env (Some running_handle)
                     (stopVSCodeServeWeb linux_env (Some running_handle) running_state))).
           \<not> is_warn (fst e)"
    using C8_stop_clears_then_cleans_up
      [of linux_env "stopVSCodeServeWeb linux_env (Some running_handle) running_state" running_handle]
      f
    by blast
  then have w: "(LoggerWarn ''Failed to remove VS Code serve-web socket at /tmp/cmux-vscode-4242-0.sock: ENOENT'',
        None, None)
         \<notin> set (since
                  (stopVSCodeServeWeb linux_env (Some running_handle) running_state)
                  (stopVSCodeServeWeb linux_env (Some running_handle)
                     (stopVSCodeServeWeb linux_env (Some running_handle) running_state)))"
    by force
  show ?thesis
    using C8_stop_clears_then_cleans_up [of linux_env running_state running_handle] f w
    by (simp add: running_state_def alive_def freshChild_def linux_env_def running_handle_def
        getVSCodeServeWebBaseUrl_def)
qed

end
